theory Spec2Isabelle
  imports Complex_Main
begin

section \<open>Go values, errors and outcomes\<close>

text \<open>
  A finite \<^verbatim>\<open>float64\<close>, as \<^verbatim>\<open>encoding/json\<close> produces for every JSON number. The
  client only compares such a value with zero and passes it on, so the rational it
  denotes is all that matters (\<^verbatim>\<open>-0.0 != 0\<close> is false in Go, as it is here).
\<close>

type_synonym float64 = rat

text \<open>
  The dynamic values an \<^verbatim>\<open>interface{}\<close> holds in this package: what the JSON decoder
  builds (\<^verbatim>\<open>nil\<close>, \<^verbatim>\<open>bool\<close>, \<^verbatim>\<open>float64\<close>, \<^verbatim>\<open>string\<close>, \<^verbatim>\<open>[]interface{}\<close>,
  \<^verbatim>\<open>map[string]interface{}\<close>), the \<^verbatim>\<open>int\<close> of \<^verbatim>\<open>SoftID\<close>, and \<open>VChan\<close> for a value of
  a kind \<^verbatim>\<open>json.Marshal\<close> refuses (a channel, a function, a complex number), which a
  caller may put into \<^verbatim>\<open>EnterprisePayload\<close>. A map is an association list read with
  \<open>map_of\<close>.
\<close>

datatype goval =
    VNil
  | VBool bool
  | VFloat float64
  | VInt int
  | VString string
  | VSlice "goval list"
  | VMap "(string \<times> goval) list"
  | VChan

type_synonym response = "(string \<times> goval) list"

text \<open>The comma-ok type assertions \<^verbatim>\<open>m[k].(T)\<close>: \<open>None\<close> is \<^verbatim>\<open>ok == false\<close>.\<close>

definition assert_float64 :: "goval option \<Rightarrow> float64 option" where
  "assert_float64 v = (case v of Some (VFloat x) \<Rightarrow> Some x | _ \<Rightarrow> None)"

definition assert_string :: "goval option \<Rightarrow> string option" where
  "assert_string v = (case v of Some (VString s) \<Rightarrow> Some s | _ \<Rightarrow> None)"

definition assert_map :: "goval option \<Rightarrow> response option" where
  "assert_map v = (case v of Some (VMap m) \<Rightarrow> Some m | _ \<Rightarrow> None)"

text \<open>
  Error values. \<open>New\<close> is \<^verbatim>\<open>errors.New\<close>, \<open>Wrapf p e\<close> is
  \<^verbatim>\<open>fmt.Errorf(p + ": %w", e)\<close>, \<open>StatusCode\<close> is the non-2xx error of \<^verbatim>\<open>makeRequest\<close>,
  \<open>Lib\<close> is an error made by the standard library (URL, JSON, network) with its text,
  and \<open>DeadlineExceeded\<close> is \<^verbatim>\<open>context.DeadlineExceeded\<close> as \<^verbatim>\<open>HTTPClient.Do\<close> reports it.
\<close>

datatype error =
    New string
  | Wrapf string error
  | StatusCode nat
  | Lib string
  | DeadlineExceeded

fun show_nat :: "nat \<Rightarrow> string" where
  "show_nat n =
     (if n < 10 then [char_of (48 + n)]
      else show_nat (n div 10) @ [char_of (48 + n mod 10)])"

fun message :: "error \<Rightarrow> string" where
  "message (New s) = s"
| "message (Wrapf p e) = p @ '': '' @ message e"
| "message (StatusCode n) = ''non-2xx status code: '' @ show_nat n"
| "message (Lib s) = s"
| "message DeadlineExceeded = ''context deadline exceeded''"

text \<open>\<^verbatim>\<open>errors.Is(err, context.DeadlineExceeded)\<close>: looks through the \<^verbatim>\<open>%w\<close> wrappers.\<close>

fun is_deadline :: "error \<Rightarrow> bool" where
  "is_deadline DeadlineExceeded = True"
| "is_deadline (Wrapf p e) = is_deadline e"
| "is_deadline _ = False"

text \<open>
  What a call of a function returning \<^verbatim>\<open>(T, error)\<close> does: it returns a value with a
  nil error, returns an error, or panics (a failed single-value type assertion).
\<close>

datatype 'a outcome = Return 'a | Error error | Panic string

section \<open>The world: clock, HTTP exchanges, log, sleeps\<close>

datatype arg = AErr error | AStr string | ANat nat | AFloat float64 | AVal goval

text \<open>One call of the logger: the format string of the source (without its final
  newline) and the arguments.\<close>

datatype log_entry = Logf string "arg list"

type_synonym request = "string \<times> string"

type_synonym http_response = "nat \<times> goval option"

text \<open>What the remote service does with a request once it is on the wire: the network
  fails, or an HTTP response arrives with a status code and a body (\<open>None\<close> when the body
  is not a JSON text).\<close>

datatype reply = NetError string | HttpReply nat "goval option"

text \<open>
  The clock counts nanoseconds. It moves during an HTTP call and during a sleep only:
  computation takes no time. The trace lists the calls of \<^verbatim>\<open>HTTPClient.Do\<close> with what
  each gave back, the log the calls of the logger, \<open>slept\<close> the durations of the calls of
  \<^verbatim>\<open>time.Sleep\<close>.
\<close>

record world =
  now :: nat
  trace :: "(request \<times> (error + http_response)) list"
  logged :: "log_entry list"
  slept :: "nat list"

text \<open>
  The collaborators outside the repository: \<^verbatim>\<open>url.Parse\<close> (\<open>Inl\<close> its error text, \<open>Inr\<close>
  the parsed URL's \<^verbatim>\<open>String()\<close>), \<^verbatim>\<open>http.NewRequestWithContext\<close> on that URL (\<open>Some\<close>
  its error text), the bytes \<^verbatim>\<open>json.Marshal\<close> gives for a value it accepts, and the
  remote service, which answers the list of requests made so far (the last one is the
  current request) with a latency in nanoseconds and a reply.
\<close>

record platform =
  url_Parse :: "string \<Rightarrow> string + string"
  http_NewRequest :: "string \<Rightarrow> string option"
  encode :: "goval \<Rightarrow> string"
  service :: "request list \<Rightarrow> nat \<times> reply"

definition second :: nat where
  "second = 1000000000"

definition apiBaseURL :: string where
  "apiBaseURL = ''https://api.anti-captcha.com''"

definition checkInterval :: nat where
  "checkInterval = 2 * second"

definition defaultTimeout :: nat where
  "defaultTimeout = 60 * second"

definition Printf :: "string \<Rightarrow> arg list \<Rightarrow> world \<Rightarrow> world" where
  "Printf fmt args w = w\<lparr>logged := logged w @ [Logf fmt args]\<rparr>"

definition Println :: "string \<Rightarrow> world \<Rightarrow> world" where
  "Println s w = w\<lparr>logged := logged w @ [Logf s []]\<rparr>"

text \<open>\<^verbatim>\<open>time.Sleep\<close>: the clock advances by the whole duration, whatever any deadline.\<close>

definition time_Sleep :: "nat \<Rightarrow> world \<Rightarrow> world" where
  "time_Sleep d w = w\<lparr>now := now w + d, slept := slept w @ [d]\<rparr>"

text \<open>
  \<^verbatim>\<open>json.Marshal\<close> fails on a value that holds an unsupported kind anywhere inside.
\<close>

function encodable :: "goval \<Rightarrow> bool" where
  "encodable VNil = True"
| "encodable (VBool b) = True"
| "encodable (VFloat x) = True"
| "encodable (VInt i) = True"
| "encodable (VString s) = True"
| "encodable (VSlice vs) = list_all encodable vs"
| "encodable (VMap kvs) = list_all (\<lambda>kv. encodable (snd kv)) kvs"
| "encodable VChan = False"
  by pat_completeness auto
termination
proof (relation "measure size")
  show "wf (measure size)" by simp
next
  fix vs :: "goval list" and v
  assume "v \<in> set vs"
  then show "(v, VSlice vs) \<in> measure size"
    by (induction vs) auto
next
  fix kvs :: "(string \<times> goval) list" and kv
  assume "kv \<in> set kvs"
  then show "(snd kv, VMap kvs) \<in> measure size"
    by (induction kvs) auto
qed

definition json_Marshal :: "platform \<Rightarrow> goval \<Rightarrow> string + string" where
  "json_Marshal P v =
     (if encodable v then Inr (encode P v) else Inl ''json: unsupported type'')"

text \<open>
  \<^verbatim>\<open>json.NewDecoder(resp.Body).Decode(&response)\<close>, where \<^verbatim>\<open>response\<close> holds the caller's
  \<^verbatim>\<open>*map[string]interface{}\<close>: a JSON object fills the map, \<^verbatim>\<open>null\<close> leaves the caller's
  nil map (which reads as empty), any other JSON value and any malformed body is an error.
\<close>

definition json_Decode :: "goval option \<Rightarrow> string + response" where
  "json_Decode body =
     (case body of
        None \<Rightarrow> Inl ''invalid character''
      | Some (VMap m) \<Rightarrow> Inr m
      | Some VNil \<Rightarrow> Inr []
      | Some _ \<Rightarrow> Inl ''json: cannot unmarshal into Go value of type map[string]interface {}'')"

text \<open>
  \<^verbatim>\<open>c.HTTPClient.Do(req)\<close> under a context whose deadline is \<open>ctx\<close>. The call is recorded
  in the trace together with what the client got back. The reply is delivered when it
  arrives before the deadline; otherwise the call is aborted at the deadline (at once
  when the deadline has passed already) with \<^verbatim>\<open>context.DeadlineExceeded\<close>. The client's
  own \<^verbatim>\<open>Timeout\<close> (60 s from the call) never ends before the context of the operation
  (60 s from its start) and is not modelled separately.
\<close>

definition http_Do ::
  "platform \<Rightarrow> nat \<Rightarrow> request \<Rightarrow> world \<Rightarrow> (error + http_response) \<times> world" where
  "http_Do P ctx req w =
     (let (latency, rep) = service P (map fst (trace w) @ [req]) in
      if now w + latency < ctx then
        (let res = (case rep of NetError e \<Rightarrow> Inl (Lib e)
                              | HttpReply code body \<Rightarrow> Inr (code, body))
         in (res, w\<lparr>now := now w + latency, trace := trace w @ [(req, res)]\<rparr>))
      else
        (Inl DeadlineExceeded,
         w\<lparr>now := max (now w) ctx, trace := trace w @ [(req, Inl DeadlineExceeded)]\<rparr>))"

section \<open>The client\<close>

text \<open>
  A client as \<^verbatim>\<open>NewClient\<close> makes it. Its \<^verbatim>\<open>HTTPClient\<close> and its \<^verbatim>\<open>Logger\<close> (never nil:
  the default logger stands in) act on the world, so the record keeps the key only.
\<close>

record Client =
  APIKey :: string

definition NewClient :: "string \<Rightarrow> Client" where
  "NewClient apiKey = \<lparr>APIKey = apiKey\<rparr>"

text \<open>
  \<^verbatim>\<open>makeRequest\<close>, with the returned error as \<open>Inl\<close> and the map decoded into the caller's
  \<^verbatim>\<open>response\<close> as \<open>Inr\<close>. Of its receiver it uses the logger and the HTTP client only. The
  deferred \<^verbatim>\<open>resp.Body.Close()\<close> can only add a log line and is left out.
\<close>

definition makeRequest ::
  "platform \<Rightarrow> nat \<Rightarrow> string \<Rightarrow> goval \<Rightarrow> world \<Rightarrow> (error + response) \<times> world" where
  "makeRequest P ctx endpoint body w =
     (case url_Parse P (apiBaseURL @ endpoint) of
        Inl e \<Rightarrow>
          (Inl (Wrapf ''failed to parse URL'' (Lib e)),
           Printf ''Error parsing URL: %v'' [AErr (Lib e)] w)
      | Inr u \<Rightarrow>
     (case json_Marshal P body of
        Inl e \<Rightarrow>
          (Inl (Wrapf ''failed to marshal request body'' (Lib e)),
           Printf ''Error marshaling request body: %v'' [AErr (Lib e)] w)
      | Inr b \<Rightarrow>
     (case http_NewRequest P u of
        Some e \<Rightarrow>
          (Inl (Wrapf ''failed to create HTTP request'' (Lib e)),
           Printf ''Error creating HTTP request: %v'' [AErr (Lib e)] w)
      | None \<Rightarrow>
     (let w1 = Printf ''Sending request to %s with body: %v'' [AStr u, ANat (length b)] w in
      case http_Do P ctx (u, b) w1 of
        (Inl err, w2) \<Rightarrow>
          (Inl (Wrapf ''request failed'' err), Printf ''Request failed: %v'' [AErr err] w2)
      | (Inr (code, rbody), w2) \<Rightarrow>
          if code < 200 \<or> code \<ge> 300 then
            (Inl (StatusCode code), Printf ''Received non-2xx status code: %d'' [ANat code] w2)
          else
            (case json_Decode rbody of
               Inl e \<Rightarrow>
                 (Inl (Wrapf ''failed to decode response'' (Lib e)),
                  Printf ''Error decoding response: %v'' [AErr (Lib e)] w2)
             | Inr resp \<Rightarrow>
                 (Inr resp, Printf ''Received response: %v'' [AVal (VMap resp)] w2))))))"

text \<open>\<^verbatim>\<open>createTaskImage\<close>: \<open>imageTaskBody\<close> is the map literal it sends, \<open>otherwise\<close> the
  code after the \<^verbatim>\<open>errorId\<close> check.\<close>

definition imageTaskBody :: "Client \<Rightarrow> string \<Rightarrow> goval" where
  "imageTaskBody c imgString =
     VMap [(''clientKey'', VString (APIKey c)),
           (''task'', VMap [(''type'', VString ''ImageToTextTask''),
                            (''body'', VString imgString)])]"

definition createTaskImage ::
  "platform \<Rightarrow> Client \<Rightarrow> nat \<Rightarrow> string \<Rightarrow> world \<Rightarrow> float64 outcome \<times> world" where
  "createTaskImage P c ctx imgString w =
     (let body = imageTaskBody c imgString;
          w0 = Println ''Creating task for image captcha...'' w
      in case makeRequest P ctx ''/createTask'' body w0 of
        (Inl err, w1) \<Rightarrow>
          (Error (Wrapf ''failed to create task'' err),
           Printf ''Failed to create task: %v'' [AErr err] w1)
      | (Inr response, w1) \<Rightarrow>
          (let otherwise =
             (case assert_float64 (map_of response ''taskId'') of
                None \<Rightarrow>
                  (Error (New ''failed to retrieve taskId from response''),
                   Println ''Failed to retrieve taskId from response'' w1)
              | Some taskID \<Rightarrow>
                  (Return taskID,
                   Printf ''Task created successfully with ID: %f'' [AFloat taskID] w1))
           in case map_of response ''errorId'' of
             None \<Rightarrow> otherwise
           | Some errMsg \<Rightarrow>
               (case assert_float64 (Some errMsg) of
                  None \<Rightarrow> (Panic ''interface conversion: interface {} is not float64'', w1)
                | Some x \<Rightarrow>
                    if x \<noteq> 0 then
                      (case assert_string (map_of response ''errorDescription'') of
                         None \<Rightarrow>
                           (Panic ''interface conversion: interface {} is not string'', w1)
                       | Some d \<Rightarrow>
                           (Error (New d), Printf ''API error creating task: %s'' [AStr d] w1))
                    else otherwise)))"

definition getTaskResult ::
  "platform \<Rightarrow> Client \<Rightarrow> nat \<Rightarrow> float64 \<Rightarrow> world \<Rightarrow> (error + response) \<times> world" where
  "getTaskResult P c ctx taskID w =
     (let body = VMap [(''clientKey'', VString (APIKey c)), (''taskId'', VFloat taskID)];
          w0 = Printf ''Checking result for task ID: %f'' [AFloat taskID] w
      in case makeRequest P ctx ''/getTaskResult'' body w0 of
        (Inl err, w1) \<Rightarrow>
          (Inl (Wrapf ''failed to get task result'' err),
           Printf ''Failed to get task result: %v'' [AErr err] w1)
      | (Inr response, w1) \<Rightarrow> (Inr response, w1))"

subsection \<open>The clock across one request\<close>

lemma Printf_fields [simp]:
  "now (Printf f a w) = now w" "trace (Printf f a w) = trace w"
  "slept (Printf f a w) = slept w" "logged (Printf f a w) = logged w @ [Logf f a]"
  by (simp_all add: Printf_def)

lemma Println_fields [simp]:
  "now (Println s w) = now w" "trace (Println s w) = trace w"
  "slept (Println s w) = slept w" "logged (Println s w) = logged w @ [Logf s []]"
  by (simp_all add: Println_def)

lemma time_Sleep_fields [simp]:
  "now (time_Sleep d w) = now w + d" "trace (time_Sleep d w) = trace w"
  "slept (time_Sleep d w) = slept w @ [d]" "logged (time_Sleep d w) = logged w"
  by (simp_all add: time_Sleep_def)

lemma http_Do_cases:
  obtains (delivered) latency rep res
    where "service P (map fst (trace w) @ [req]) = (latency, rep)"
      and "now w + latency < ctx"
      and "res = (case rep of NetError e \<Rightarrow> Inl (Lib e) | HttpReply code body \<Rightarrow> Inr (code, body))"
      and "http_Do P ctx req w =
             (res, w\<lparr>now := now w + latency, trace := trace w @ [(req, res)]\<rparr>)"
  | (aborted) latency rep
    where "service P (map fst (trace w) @ [req]) = (latency, rep)"
      and "\<not> now w + latency < ctx"
      and "http_Do P ctx req w =
             (Inl DeadlineExceeded,
              w\<lparr>now := max (now w) ctx, trace := trace w @ [(req, Inl DeadlineExceeded)]\<rparr>)"
proof (cases "service P (map fst (trace w) @ [req])")
  case (Pair latency rep)
  show thesis
  proof (cases "now w + latency < ctx")
    case True
    with Pair show thesis
      by (intro delivered [of latency rep]) (simp_all add: http_Do_def Let_def)
  next
    case False
    with Pair show thesis
      by (intro aborted [of latency rep]) (simp_all add: http_Do_def)
  qed
qed

lemma http_Do_Inr_clock:
  assumes "http_Do P ctx req w = (Inr r, w')"
  shows "now w \<le> now w' \<and> now w' < ctx"
  using assms by (cases rule: http_Do_cases [of P w req ctx]) (auto split: reply.splits)

lemma makeRequest_Inr_clock:
  assumes "makeRequest P ctx endpoint body w = (Inr r, w')"
  shows "now w \<le> now w' \<and> now w' < ctx"
  using assms
  by (auto simp: makeRequest_def Let_def
      split: sum.splits option.splits prod.splits if_splits dest!: http_Do_Inr_clock)

lemma getTaskResult_Inr_clock:
  assumes "getTaskResult P c ctx taskID w = (Inr r, w')"
  shows "now w \<le> now w' \<and> now w' < ctx"
  using assms
  by (auto simp: getTaskResult_def Let_def split: sum.splits prod.splits
      dest!: makeRequest_Inr_clock)

subsection \<open>Image captchas\<close>

text \<open>The polling loop of \<^verbatim>\<open>SendImage\<close>.\<close>

function SendImage_loop ::
  "platform \<Rightarrow> Client \<Rightarrow> nat \<Rightarrow> float64 \<Rightarrow> world \<Rightarrow> string outcome \<times> world" where
  "SendImage_loop P c ctx taskID w =
     (case getTaskResult P c ctx taskID w of
        (Inl err, w1) \<Rightarrow>
          (Error (Wrapf ''failed to get task result'' err),
           Printf ''Error getting task result: %v'' [AErr err] w1)
      | (Inr response, w1) \<Rightarrow>
          if assert_string (map_of response ''status'') = Some ''ready'' then
            (let w2 = Printf ''Task ID %f is ready with solution.'' [AFloat taskID] w1 in
             case assert_map (map_of response ''solution'') of
               None \<Rightarrow>
                 (Error (New ''invalid solution format in response''),
                  Println ''Invalid solution format in response'' w2)
             | Some solution \<Rightarrow>
                 (case assert_string (map_of solution ''text'') of
                    None \<Rightarrow>
                      (Error (New ''text not found in solution''),
                       Println ''Text not found in solution'' w2)
                  | Some text \<Rightarrow>
                      (Return text, Printf ''Captcha solved successfully: %s'' [AStr text] w2)))
          else
            SendImage_loop P c ctx taskID
              (time_Sleep checkInterval
                 (Printf ''Task ID %f is still processing...'' [AFloat taskID] w1)))"
  by pat_completeness auto
termination
proof (relation "measure (\<lambda>(P, c, ctx, taskID, w). ctx + checkInterval - now w)")
  show "wf (measure (\<lambda>(P, c, ctx, taskID, w). ctx + checkInterval - now w))"
    by simp
next
  fix P c ctx taskID w x w1 response
  assume "(x, w1) = getTaskResult P c ctx taskID w" and "x = Inr response"
  then have "getTaskResult P c ctx taskID w = (Inr response, w1)"
    by simp
  then have "now w \<le> now w1 \<and> now w1 < ctx"
    by (rule getTaskResult_Inr_clock)
  then show "((P, c, ctx, taskID,
               time_Sleep checkInterval
                 (Printf ''Task ID %f is still processing...'' [AFloat taskID] w1)),
              P, c, ctx, taskID, w)
             \<in> measure (\<lambda>(P, c, ctx, taskID, w). ctx + checkInterval - now w)"
    by (simp add: checkInterval_def second_def) arith
qed

definition SendImage ::
  "platform \<Rightarrow> Client \<Rightarrow> string \<Rightarrow> world \<Rightarrow> string outcome \<times> world" where
  "SendImage P c imgString w =
     (let ctx = now w + defaultTimeout in
      case createTaskImage P c ctx imgString w of
        (Return taskID, w1) \<Rightarrow> SendImage_loop P c ctx taskID w1
      | (Error err, w1) \<Rightarrow>
          (Error (Wrapf ''failed to send image'' err),
           Printf ''Error sending image: %v'' [AErr err] w1)
      | (Panic p, w1) \<Rightarrow> (Panic p, w1))"

subsection \<open>HCaptcha\<close>

text \<open>The \<^verbatim>\<open>Client\<close> field is the client the pointer refers to (never nil).\<close>

record HCaptchaProxyless =
  Client :: Client
  WebsiteURL :: string
  WebsiteKey :: string
  IsInvisible :: bool
  IsEnterprise :: bool
  EnterprisePayload :: "(string \<times> goval) list"
  SoftID :: int
  UserAgent :: string
  RespKey :: string

definition NewHCaptchaProxyless :: "Client \<Rightarrow> HCaptchaProxyless" where
  "NewHCaptchaProxyless client =
     \<lparr>Client = client, WebsiteURL = [], WebsiteKey = [], IsInvisible = False,
      IsEnterprise = False, EnterprisePayload = [], SoftID = 0, UserAgent = [],
      RespKey = []\<rparr>"

definition SetWebsiteURL :: "string \<Rightarrow> HCaptchaProxyless \<Rightarrow> HCaptchaProxyless" where
  "SetWebsiteURL url h = h\<lparr>WebsiteURL := url\<rparr>"

definition SetWebsiteKey :: "string \<Rightarrow> HCaptchaProxyless \<Rightarrow> HCaptchaProxyless" where
  "SetWebsiteKey key h = h\<lparr>WebsiteKey := key\<rparr>"

definition SetIsInvisible :: "bool \<Rightarrow> HCaptchaProxyless \<Rightarrow> HCaptchaProxyless" where
  "SetIsInvisible invisible h = h\<lparr>IsInvisible := invisible\<rparr>"

definition SetIsEnterprise :: "bool \<Rightarrow> HCaptchaProxyless \<Rightarrow> HCaptchaProxyless" where
  "SetIsEnterprise enterprise h = h\<lparr>IsEnterprise := enterprise\<rparr>"

definition SetEnterprisePayload ::
  "(string \<times> goval) list \<Rightarrow> HCaptchaProxyless \<Rightarrow> HCaptchaProxyless" where
  "SetEnterprisePayload payload h = h\<lparr>EnterprisePayload := payload\<rparr>"

definition SetSoftID :: "int \<Rightarrow> HCaptchaProxyless \<Rightarrow> HCaptchaProxyless" where
  "SetSoftID softID h = h\<lparr>SoftID := softID\<rparr>"

text \<open>The polling loop of \<^verbatim>\<open>SolveAndReturnSolution\<close>; it returns the configuration too,
  which the method updates through its pointer receiver.\<close>

function SolveAndReturnSolution_loop ::
  "platform \<Rightarrow> HCaptchaProxyless \<Rightarrow> nat \<Rightarrow> float64 \<Rightarrow> world
   \<Rightarrow> string outcome \<times> HCaptchaProxyless \<times> world" where
  "SolveAndReturnSolution_loop P h ctx taskID w =
     (case getTaskResult P (Client h) ctx taskID w of
        (Inl err, w1) \<Rightarrow>
          (Error (Wrapf ''failed to get task result'' err), h,
           Printf ''Error getting task result: %v'' [AErr err] w1)
      | (Inr result, w1) \<Rightarrow>
          if assert_string (map_of result ''status'') = Some ''ready'' then
            (let w2 = Printf ''Task ID %f is ready with solution.'' [AFloat taskID] w1 in
             case assert_map (map_of result ''solution'') of
               None \<Rightarrow>
                 (Error (New ''invalid solution format in response''), h,
                  Println ''Invalid solution format in response'' w2)
             | Some solution \<Rightarrow>
                 (case assert_string (map_of solution ''gRecaptchaResponse'') of
                    None \<Rightarrow>
                      (Error (New ''gRecaptchaResponse not found in solution''), h,
                       Println ''gRecaptchaResponse not found in solution'' w2)
                  | Some gResponse \<Rightarrow>
                      (case assert_string (map_of solution ''userAgent'') of
                         None \<Rightarrow>
                           (Panic ''interface conversion: interface {} is not string'', h, w2)
                       | Some ua \<Rightarrow>
                           (let h1 = h\<lparr>UserAgent := ua\<rparr> in
                            case assert_string (map_of solution ''respKey'') of
                              None \<Rightarrow>
                                (Panic ''interface conversion: interface {} is not string'',
                                 h1, w2)
                            | Some rk \<Rightarrow>
                                (Return gResponse, h1\<lparr>RespKey := rk\<rparr>,
                                 Printf ''HCaptcha solved successfully: %s''
                                   [AStr gResponse] w2)))))
          else
            SolveAndReturnSolution_loop P h ctx taskID
              (time_Sleep checkInterval
                 (Printf ''Task ID %f is still processing...'' [AFloat taskID] w1)))"
  by pat_completeness auto
termination
proof (relation "measure (\<lambda>(P, h, ctx, taskID, w). ctx + checkInterval - now w)")
  show "wf (measure (\<lambda>(P, h, ctx, taskID, w). ctx + checkInterval - now w))"
    by simp
next
  fix P h ctx taskID w x w1 result
  assume "(x, w1) = getTaskResult P (Client h) ctx taskID w" and "x = Inr result"
  then have "getTaskResult P (Client h) ctx taskID w = (Inr result, w1)"
    by simp
  then have "now w \<le> now w1 \<and> now w1 < ctx"
    by (rule getTaskResult_Inr_clock)
  then show "((P, h, ctx, taskID,
               time_Sleep checkInterval
                 (Printf ''Task ID %f is still processing...'' [AFloat taskID] w1)),
              P, h, ctx, taskID, w)
             \<in> measure (\<lambda>(P, h, ctx, taskID, w). ctx + checkInterval - now w)"
    by (simp add: checkInterval_def second_def) arith
qed

definition hcaptchaTaskBody :: "HCaptchaProxyless \<Rightarrow> goval" where
  "hcaptchaTaskBody h =
     VMap [(''clientKey'', VString (APIKey (Client h))),
           (''task'', VMap [(''type'', VString ''HCaptchaTaskProxyless''),
                            (''websiteURL'', VString (WebsiteURL h)),
                            (''websiteKey'', VString (WebsiteKey h)),
                            (''isInvisible'', VBool (IsInvisible h)),
                            (''isEnterprise'', VBool (IsEnterprise h)),
                            (''enterprisePayload'', VMap (EnterprisePayload h))]),
           (''softId'', VInt (SoftID h))]"

definition SolveAndReturnSolution ::
  "platform \<Rightarrow> HCaptchaProxyless \<Rightarrow> world \<Rightarrow> string outcome \<times> HCaptchaProxyless \<times> world" where
  "SolveAndReturnSolution P h w =
     (let ctx = now w + defaultTimeout;
          body = hcaptchaTaskBody h;
          w0 = Println ''Creating HCaptcha proxyless task...'' w
      in case makeRequest P ctx ''/createTask'' body w0 of
        (Inl err, w1) \<Rightarrow>
          (Error (Wrapf ''failed to create task'' err), h,
           Printf ''Failed to create task: %v'' [AErr err] w1)
      | (Inr response, w1) \<Rightarrow>
          (let otherwise =
             (case assert_float64 (map_of response ''taskId'') of
                None \<Rightarrow>
                  (Error (New ''failed to retrieve taskId from response''), h,
                   Println ''Failed to retrieve taskId from response'' w1)
              | Some taskID \<Rightarrow>
                  SolveAndReturnSolution_loop P h ctx taskID
                    (Printf ''Task created successfully with ID: %f'' [AFloat taskID] w1))
           in case map_of response ''errorId'' of
             None \<Rightarrow> otherwise
           | Some errMsg \<Rightarrow>
               (case assert_float64 (Some errMsg) of
                  None \<Rightarrow>
                    (Panic ''interface conversion: interface {} is not float64'', h, w1)
                | Some x \<Rightarrow>
                    if x \<noteq> 0 then
                      (case assert_string (map_of response ''errorDescription'') of
                         None \<Rightarrow>
                           (Panic ''interface conversion: interface {} is not string'', h, w1)
                       | Some d \<Rightarrow>
                           (Error (New d), h,
                            Printf ''API error creating task: %s'' [AStr d] w1))
                    else otherwise)))"

section \<open>A test double for the collaborators\<close>

text \<open>
  A stand-in encoder for the scenarios below: compact JSON without string escapes, a
  number printed as its integral part. The theorems that hold for every platform do not
  depend on it.
\<close>

definition show_int :: "int \<Rightarrow> string" where
  "show_int i = (if i < 0 then ''-'' else []) @ show_nat (nat \<bar>i\<bar>)"

fun join_comma :: "string list \<Rightarrow> string" where
  "join_comma [] = []"
| "join_comma [s] = s"
| "join_comma (s # t # ss) = s @ '','' @ join_comma (t # ss)"

definition quote :: "string \<Rightarrow> string" where
  "quote s = [CHR 0x22] @ s @ [CHR 0x22]"

function mock_encode :: "goval \<Rightarrow> string" where
  "mock_encode VNil = ''null''"
| "mock_encode (VBool b) = (if b then ''true'' else ''false'')"
| "mock_encode (VFloat x) = show_int \<lfloor>x\<rfloor>"
| "mock_encode (VInt i) = show_int i"
| "mock_encode (VString s) = quote s"
| "mock_encode (VSlice vs) = ''['' @ join_comma (map mock_encode vs) @ '']''"
| "mock_encode (VMap kvs) =
     ''{'' @ join_comma (map (\<lambda>kv. quote (fst kv) @ '':'' @ mock_encode (snd kv)) kvs) @ ''}''"
| "mock_encode VChan = []"
  by pat_completeness auto
termination
proof (relation "measure size")
  show "wf (measure size)" by simp
next
  fix vs :: "goval list" and v
  assume "v \<in> set vs"
  then show "(v, VSlice vs) \<in> measure size"
    by (induction vs) auto
next
  fix kvs :: "(string \<times> goval) list" and kv
  assume "kv \<in> set kvs"
  then show "(snd kv, VMap kvs) \<in> measure size"
    by (induction kvs) auto
qed

text \<open>A scripted remote service: the \<open>i\<close>-th request gets the \<open>i\<close>-th entry of the script,
  and the connection is refused once the script is over.\<close>

definition scripted :: "(nat \<times> reply) list \<Rightarrow> request list \<Rightarrow> nat \<times> reply" where
  "scripted script reqs =
     (if reqs \<noteq> [] \<and> length reqs \<le> length script then script ! (length reqs - 1)
      else (0, NetError ''connection refused''))"

definition mock :: "(request list \<Rightarrow> nat \<times> reply) \<Rightarrow> platform" where
  "mock srv = \<lparr>url_Parse = Inr, http_NewRequest = (\<lambda>u. None), encode = mock_encode,
               service = srv\<rparr>"

definition ok :: "(string \<times> goval) list \<Rightarrow> reply" where
  "ok m = HttpReply 200 (Some (VMap m))"

definition boot :: world where
  "boot = \<lparr>now = 0, trace = [], logged = [], slept = []\<rparr>"

section \<open>Requests, exchanges and the polling loop\<close>

text \<open>
  \<open>sendable\<close>: the three steps of \<^verbatim>\<open>makeRequest\<close> before the network call succeed (the URL
  parses, the body is serialized, the request is created). \<open>received\<close>: what
  \<^verbatim>\<open>makeRequest\<close> returns for the outcome of the network call. Both restate branches of
  \<open>makeRequest\<close>; the lemmas below tie them to it.
\<close>

definition sendable :: "platform \<Rightarrow> string \<Rightarrow> goval \<Rightarrow> bool" where
  "sendable P endpoint body =
     (case url_Parse P (apiBaseURL @ endpoint) of
        Inl e \<Rightarrow> False
      | Inr u \<Rightarrow> encodable body \<and> http_NewRequest P u = None)"

definition received :: "error + http_response \<Rightarrow> error + response" where
  "received res =
     (case res of
        Inl err \<Rightarrow> Inl (Wrapf ''request failed'' err)
      | Inr (code, rbody) \<Rightarrow>
          if code < 200 \<or> code \<ge> 300 then Inl (StatusCode code)
          else (case json_Decode rbody of
                  Inl e \<Rightarrow> Inl (Wrapf ''failed to decode response'' (Lib e))
                | Inr resp \<Rightarrow> Inr resp))"

lemma http_Do_world:
  assumes "http_Do P ctx req w = (res, w')"
  shows "trace w' = trace w @ [(req, res)] \<and> slept w' = slept w \<and> logged w' = logged w
         \<and> now w \<le> now w' \<and> (now w' \<le> ctx \<or> now w' = now w)
         \<and> (res = Inl DeadlineExceeded \<or> now w' < ctx)"
  using assms by (cases rule: http_Do_cases [of P w req ctx]) (auto split: reply.splits)

lemma makeRequest_unsendable:
  assumes "\<not> sendable P endpoint body" and "makeRequest P ctx endpoint body w = (r, w')"
  shows "isl r \<and> trace w' = trace w \<and> slept w' = slept w \<and> now w' = now w"
  using assms
  by (auto simp: makeRequest_def sendable_def json_Marshal_def split: sum.splits option.splits if_splits)

lemma makeRequest_sendable:
  assumes "sendable P endpoint body" and "makeRequest P ctx endpoint body w = (r, w')"
  shows "\<exists>req res. trace w' = trace w @ [(req, res)] \<and> r = received res
           \<and> slept w' = slept w \<and> now w \<le> now w' \<and> (now w' \<le> ctx \<or> now w' = now w)
           \<and> (res = Inl DeadlineExceeded \<or> now w' < ctx)"
proof -
  from assms(1) obtain u where u: "url_Parse P (apiBaseURL @ endpoint) = Inr u"
      "encodable body" "http_NewRequest P u = None"
    by (auto simp: sendable_def split: sum.splits)
  define w1 where
    "w1 = Printf ''Sending request to %s with body: %v'' [AStr u, ANat (length (encode P body))] w"
  obtain res w2 where d: "http_Do P ctx (u, encode P body) w1 = (res, w2)"
    by fastforce
  from assms(2) u d have "r = received res \<and> trace w' = trace w2 \<and> slept w' = slept w2
      \<and> now w' = now w2"
    by (auto simp: makeRequest_def json_Marshal_def received_def Let_def w1_def
        split: sum.splits if_splits prod.splits)
  with http_Do_world [OF d] show ?thesis
    by (simp add: w1_def)
qed

text \<open>An exchange that gave \<^verbatim>\<open>makeRequest\<close> a response whose status is "ready".\<close>

definition ready_response :: "error + http_response \<Rightarrow> bool" where
  "ready_response res =
     (case received res of
        Inl e \<Rightarrow> False
      | Inr m \<Rightarrow> assert_string (map_of m ''status'') = Some ''ready'')"

text \<open>
  The loop both operations run, cut before the decoding of the solution: it ends with
  the error of a failed poll or with the first response whose status is ready.
\<close>

function pollUntilReady ::
  "platform \<Rightarrow> Client \<Rightarrow> nat \<Rightarrow> float64 \<Rightarrow> world \<Rightarrow> (error + response) \<times> world" where
  "pollUntilReady P c ctx taskID w =
     (case getTaskResult P c ctx taskID w of
        (Inl err, w1) \<Rightarrow> (Inl err, w1)
      | (Inr response, w1) \<Rightarrow>
          if assert_string (map_of response ''status'') = Some ''ready'' then (Inr response, w1)
          else
            pollUntilReady P c ctx taskID
              (time_Sleep checkInterval
                 (Printf ''Task ID %f is still processing...'' [AFloat taskID] w1)))"
  by pat_completeness auto
termination
proof (relation "measure (\<lambda>(P, c, ctx, taskID, w). ctx + checkInterval - now w)")
  show "wf (measure (\<lambda>(P, c, ctx, taskID, w). ctx + checkInterval - now w))"
    by simp
next
  fix P c ctx taskID w x w1 response
  assume "(x, w1) = getTaskResult P c ctx taskID w" and "x = Inr response"
  then have "getTaskResult P c ctx taskID w = (Inr response, w1)"
    by simp
  then have "now w \<le> now w1 \<and> now w1 < ctx"
    by (rule getTaskResult_Inr_clock)
  then show "((P, c, ctx, taskID,
               time_Sleep checkInterval
                 (Printf ''Task ID %f is still processing...'' [AFloat taskID] w1)),
              P, c, ctx, taskID, w)
             \<in> measure (\<lambda>(P, c, ctx, taskID, w). ctx + checkInterval - now w)"
    by (simp add: checkInterval_def second_def) arith
qed

declare SendImage_loop.simps [simp del] SolveAndReturnSolution_loop.simps [simp del]
  pollUntilReady.simps [simp del]

lemma SendImage_loop_poll:
  "SendImage_loop P c ctx taskID w =
     (case pollUntilReady P c ctx taskID w of
        (Inl err, w1) \<Rightarrow>
          (Error (Wrapf ''failed to get task result'' err),
           Printf ''Error getting task result: %v'' [AErr err] w1)
      | (Inr response, w1) \<Rightarrow>
          (let w2 = Printf ''Task ID %f is ready with solution.'' [AFloat taskID] w1 in
           case assert_map (map_of response ''solution'') of
             None \<Rightarrow>
               (Error (New ''invalid solution format in response''),
                Println ''Invalid solution format in response'' w2)
           | Some solution \<Rightarrow>
               (case assert_string (map_of solution ''text'') of
                  None \<Rightarrow>
                    (Error (New ''text not found in solution''),
                     Println ''Text not found in solution'' w2)
                | Some text \<Rightarrow>
                    (Return text, Printf ''Captcha solved successfully: %s'' [AStr text] w2))))"
proof (induction P c ctx taskID w rule: pollUntilReady.induct)
  case (1 P c ctx taskID w)
  obtain g w1 where g: "getTaskResult P c ctx taskID w = (g, w1)"
    by fastforce
  show ?case
  proof (cases g)
    case (Inl err)
    with g show ?thesis
      by (simp add: SendImage_loop.simps [of P c ctx taskID w]
          pollUntilReady.simps [of P c ctx taskID w])
  next
    case (Inr response)
    show ?thesis
    proof (cases "assert_string (map_of response ''status'') = Some ''ready''")
      case True
      with g Inr show ?thesis
        by (simp add: SendImage_loop.simps [of P c ctx taskID w]
            pollUntilReady.simps [of P c ctx taskID w])
    next
      case False
      from "1.IH" [OF g [symmetric] Inr False] g Inr False show ?thesis
        by (simp add: SendImage_loop.simps [of P c ctx taskID w]
            pollUntilReady.simps [of P c ctx taskID w])
    qed
  qed
qed

lemma SolveAndReturnSolution_loop_poll:
  "SolveAndReturnSolution_loop P h ctx taskID w =
     (case pollUntilReady P (Client h) ctx taskID w of
        (Inl err, w1) \<Rightarrow>
          (Error (Wrapf ''failed to get task result'' err), h,
           Printf ''Error getting task result: %v'' [AErr err] w1)
      | (Inr result, w1) \<Rightarrow>
          (let w2 = Printf ''Task ID %f is ready with solution.'' [AFloat taskID] w1 in
           case assert_map (map_of result ''solution'') of
             None \<Rightarrow>
               (Error (New ''invalid solution format in response''), h,
                Println ''Invalid solution format in response'' w2)
           | Some solution \<Rightarrow>
               (case assert_string (map_of solution ''gRecaptchaResponse'') of
                  None \<Rightarrow>
                    (Error (New ''gRecaptchaResponse not found in solution''), h,
                     Println ''gRecaptchaResponse not found in solution'' w2)
                | Some gResponse \<Rightarrow>
                    (case assert_string (map_of solution ''userAgent'') of
                       None \<Rightarrow>
                         (Panic ''interface conversion: interface {} is not string'', h, w2)
                     | Some ua \<Rightarrow>
                         (let h1 = h\<lparr>UserAgent := ua\<rparr> in
                          case assert_string (map_of solution ''respKey'') of
                            None \<Rightarrow>
                              (Panic ''interface conversion: interface {} is not string'',
                               h1, w2)
                          | Some rk \<Rightarrow>
                              (Return gResponse, h1\<lparr>RespKey := rk\<rparr>,
                               Printf ''HCaptcha solved successfully: %s''
                                 [AStr gResponse] w2))))))"
proof (induction P h ctx taskID w rule: SolveAndReturnSolution_loop.induct)
  case (1 P h ctx taskID w)
  obtain g w1 where g: "getTaskResult P (Client h) ctx taskID w = (g, w1)"
    by fastforce
  show ?case
  proof (cases g)
    case (Inl err)
    with g show ?thesis
      by (simp add: SolveAndReturnSolution_loop.simps [of P h ctx taskID w]
          pollUntilReady.simps [of P "Client h" ctx taskID w])
  next
    case (Inr response)
    show ?thesis
    proof (cases "assert_string (map_of response ''status'') = Some ''ready''")
      case True
      with g Inr show ?thesis
        by (simp add: SolveAndReturnSolution_loop.simps [of P h ctx taskID w]
            pollUntilReady.simps [of P "Client h" ctx taskID w])
    next
      case False
      from "1.IH" [OF g [symmetric] Inr False] g Inr False show ?thesis
        by (simp add: SolveAndReturnSolution_loop.simps [of P h ctx taskID w]
            pollUntilReady.simps [of P "Client h" ctx taskID w])
    qed
  qed
qed

lemma encodable_taskResult [simp]:
  "encodable (VMap [(''clientKey'', VString k), (''taskId'', VFloat t)])"
  by simp

lemma getTaskResult_exchange:
  assumes "getTaskResult P c ctx taskID w = (r, w')"
  shows "slept w' = slept w \<and> now w \<le> now w' \<and> (now w' \<le> ctx \<or> now w' = now w)
         \<and> (isl r \<and> trace w' = trace w
            \<or> (\<exists>req res. trace w' = trace w @ [(req, res)]
                  \<and> r = map_sum (Wrapf ''failed to get task result'') id (received res)
                  \<and> (res = Inl DeadlineExceeded \<or> now w' < ctx)))"
proof -
  define body where "body = VMap [(''clientKey'', VString (APIKey c)), (''taskId'', VFloat taskID)]"
  define w0 where "w0 = Printf ''Checking result for task ID: %f'' [AFloat taskID] w"
  obtain m w1 where m: "makeRequest P ctx ''/getTaskResult'' body w0 = (m, w1)"
    by fastforce
  with assms have r: "r = map_sum (Wrapf ''failed to get task result'') id m"
      "trace w' = trace w1" "slept w' = slept w1" "now w' = now w1"
    by (auto simp: getTaskResult_def body_def w0_def split: sum.splits)
  show ?thesis
  proof (cases "sendable P ''/getTaskResult'' body")
    case True
    from makeRequest_sendable [OF True m] r show ?thesis
      by (auto simp: w0_def)
  next
    case False
    from makeRequest_unsendable [OF False m] r show ?thesis
      by (auto simp: w0_def isl_def)
  qed
qed

lemma getTaskResult_sends:
  assumes "getTaskResult P c ctx taskID w = (r, w')"
  shows "trace w' \<noteq> trace w \<longleftrightarrow>
         sendable P ''/getTaskResult''
           (VMap [(''clientKey'', VString (APIKey c)), (''taskId'', VFloat taskID)])"
proof -
  define body where "body = VMap [(''clientKey'', VString (APIKey c)), (''taskId'', VFloat taskID)]"
  define w0 where "w0 = Printf ''Checking result for task ID: %f'' [AFloat taskID] w"
  obtain m w1 where m: "makeRequest P ctx ''/getTaskResult'' body w0 = (m, w1)"
    by fastforce
  with assms have r: "trace w' = trace w1"
    by (auto simp: getTaskResult_def body_def w0_def split: sum.splits)
  show ?thesis
  proof (cases "sendable P ''/getTaskResult'' body")
    case True
    from makeRequest_sendable [OF True m] r True show ?thesis
      by (auto simp: w0_def body_def)
  next
    case False
    from makeRequest_unsendable [OF False m] r False show ?thesis
      by (auto simp: w0_def body_def)
  qed
qed

lemma getTaskResult_Inr:
  assumes "getTaskResult P c ctx taskID w = (Inr m, w')"
  shows "\<exists>req res. trace w' = trace w @ [(req, res)] \<and> received res = Inr m
           \<and> slept w' = slept w \<and> now w \<le> now w' \<and> now w' < ctx"
proof -
  from getTaskResult_exchange [OF assms] obtain req res
    where x: "trace w' = trace w @ [(req, res)]"
      "Inr m = map_sum (Wrapf ''failed to get task result'') id (received res)"
      "res = Inl DeadlineExceeded \<or> now w' < ctx" "slept w' = slept w" "now w \<le> now w'"
    by auto
  from x(2) have m: "received res = Inr m"
    by (cases "received res") auto
  then have "res \<noteq> Inl DeadlineExceeded"
    by (auto simp: received_def)
  with x m show ?thesis
    by auto
qed

lemma getTaskResult_Inl:
  assumes "getTaskResult P c ctx taskID w = (Inl e, w')"
  shows "slept w' = slept w \<and> now w \<le> now w' \<and> (now w' \<le> ctx \<or> now w' = now w)
         \<and> (trace w' = trace w
            \<or> (\<exists>req res e'. trace w' = trace w @ [(req, res)] \<and> received res = Inl e'
                  \<and> e = Wrapf ''failed to get task result'' e'
                  \<and> (res = Inl DeadlineExceeded \<or> now w' < ctx)))"
proof -
  note ex = getTaskResult_exchange [OF assms]
  show ?thesis
  proof (cases "trace w' = trace w")
    case True
    with ex show ?thesis by simp
  next
    case False
    with ex obtain req res
      where x: "trace w' = trace w @ [(req, res)]"
        "Inl e = map_sum (Wrapf ''failed to get task result'') id (received res)"
        "res = Inl DeadlineExceeded \<or> now w' < ctx"
      by auto
    from x(2) obtain e' where "received res = Inl e'" "e = Wrapf ''failed to get task result'' e'"
      by (cases "received res") auto
    with x ex show ?thesis
      by auto
  qed
qed

lemma pollUntilReady_trace:
  assumes "pollUntilReady P c ctx taskID w = (r, w')"
  shows "\<exists>new. trace w' = trace w @ new
           \<and> (\<forall>x \<in> set (butlast new). \<not> ready_response (snd x))
           \<and> slept w' = slept w @ replicate (length new - 1) checkInterval
           \<and> (new = [] \<longrightarrow> (\<exists>e w1. getTaskResult P c ctx taskID w = (Inl e, w1) \<and> trace w1 = trace w))
           \<and> (\<forall>m. r = Inr m \<longrightarrow> new \<noteq> [] \<and> received (snd (last new)) = Inr m
                  \<and> assert_string (map_of m ''status'') = Some ''ready'')"
  using assms
proof (induction P c ctx taskID w arbitrary: r w' rule: pollUntilReady.induct)
  case (1 P c ctx taskID w)
  obtain g w1 where g: "getTaskResult P c ctx taskID w = (g, w1)"
    by fastforce
  show ?case
  proof (cases g)
    case (Inl err)
    with "1.prems" g have e: "w' = w1" "r = Inl err"
      by (auto simp: pollUntilReady.simps [of P c ctx taskID w])
    from getTaskResult_Inl [OF g [unfolded Inl]]
    consider "trace w1 = trace w" "slept w1 = slept w"
      | req res where "trace w1 = trace w @ [(req, res)]" "slept w1 = slept w"
      by blast
    then show ?thesis
    proof cases
      case 1
      with e g Inl show ?thesis
        by (intro exI [of _ "[]"]) simp
    next
      case 2
      with e show ?thesis
        by (intro exI [of _ "[(req, res)]"]) simp
    qed
  next
    case (Inr response)
    with getTaskResult_Inr [OF g [unfolded Inr]] obtain req res
      where x: "trace w1 = trace w @ [(req, res)]"
        "received res = Inr response" "slept w1 = slept w"
      by auto
    show ?thesis
    proof (cases "assert_string (map_of response ''status'') = Some ''ready''")
      case True
      with "1.prems" g Inr have "w' = w1" "r = Inr response"
        by (auto simp: pollUntilReady.simps [of P c ctx taskID w])
      with x True show ?thesis
        by (intro exI [of _ "[(req, res)]"]) simp
    next
      case False
      define w2 where "w2 = time_Sleep checkInterval
        (Printf ''Task ID %f is still processing...'' [AFloat taskID] w1)"
      from "1.prems" g Inr False have run: "pollUntilReady P c ctx taskID w2 = (r, w')"
        by (simp add: pollUntilReady.simps [of P c ctx taskID w] w2_def)
      from "1.IH" [OF g [symmetric] Inr False run [unfolded w2_def], folded w2_def]
      obtain new where c: "trace w' = trace w2 @ new
           \<and> (\<forall>x \<in> set (butlast new). \<not> ready_response (snd x))
           \<and> slept w' = slept w2 @ replicate (length new - 1) checkInterval
           \<and> (new = [] \<longrightarrow> (\<exists>e w1. getTaskResult P c ctx taskID w2 = (Inl e, w1) \<and> trace w1 = trace w2))
           \<and> (\<forall>m. r = Inr m \<longrightarrow> new \<noteq> [] \<and> received (snd (last new)) = Inr m
                  \<and> assert_string (map_of m ''status'') = Some ''ready'')" ..
      note new = c [THEN conjunct1] c [THEN conjunct2, THEN conjunct1]
        c [THEN conjunct2, THEN conjunct2, THEN conjunct1]
        c [THEN conjunct2, THEN conjunct2, THEN conjunct2, THEN conjunct1]
        c [THEN conjunct2, THEN conjunct2, THEN conjunct2, THEN conjunct2]
      have nr: "\<not> ready_response res"
        using x False by (simp add: ready_response_def)
      have ne: "new \<noteq> []"
      proof
        assume "new = []"
        with new(4) obtain e w3 where "getTaskResult P c ctx taskID w2 = (Inl e, w3)"
            "trace w3 = trace w2"
          by auto
        with getTaskResult_sends [of P c ctx taskID w2] getTaskResult_sends [OF g] x
        show False
          by simp
      qed
      from ne obtain n where n: "length new = Suc n"
        by (cases new) auto
      have t: "trace w' = trace w @ (req, res) # new"
        using new(1) x(1) by (simp add: w2_def)
      have b: "\<forall>x \<in> set (butlast ((req, res) # new)). \<not> ready_response (snd x)"
        using new(2) nr ne by simp
      have s: "slept w' = slept w @ replicate (length ((req, res) # new) - 1) checkInterval"
        using new(3) x(3) n by (simp add: w2_def)
      have l: "\<forall>m. r = Inr m \<longrightarrow> (req, res) # new \<noteq> []
            \<and> received (snd (last ((req, res) # new))) = Inr m
            \<and> assert_string (map_of m ''status'') = Some ''ready''"
        using new(5) ne by simp
      from t b s l show ?thesis
        by blast
    qed
  qed
qed

subsection \<open>The clock, the trace and the sleeps of an operation\<close>

lemma pollUntilReady_clock:
  assumes "pollUntilReady P c ctx taskID w = (r, w')"
  shows "now w \<le> now w' \<and> (now w < ctx + checkInterval \<longrightarrow> now w' < ctx + checkInterval)"
  using assms
proof (induction P c ctx taskID w arbitrary: r w' rule: pollUntilReady.induct)
  case (1 P c ctx taskID w)
  obtain g w1 where g: "getTaskResult P c ctx taskID w = (g, w1)"
    by fastforce
  show ?case
  proof (cases g)
    case (Inl err)
    with "1.prems" g have "w' = w1"
      by (auto simp: pollUntilReady.simps [of P c ctx taskID w])
    with getTaskResult_Inl [OF g [unfolded Inl]] show ?thesis
      by (auto simp: checkInterval_def second_def)
  next
    case (Inr response)
    from getTaskResult_Inr [OF g [unfolded Inr]] have k: "now w \<le> now w1" "now w1 < ctx"
      by auto
    show ?thesis
    proof (cases "assert_string (map_of response ''status'') = Some ''ready''")
      case True
      with "1.prems" g Inr have "w' = w1"
        by (auto simp: pollUntilReady.simps [of P c ctx taskID w])
      with k show ?thesis
        by simp
    next
      case False
      define w2 where "w2 = time_Sleep checkInterval
        (Printf ''Task ID %f is still processing...'' [AFloat taskID] w1)"
      from "1.prems" g Inr False have run: "pollUntilReady P c ctx taskID w2 = (r, w')"
        by (simp add: pollUntilReady.simps [of P c ctx taskID w] w2_def)
      note ih = "1.IH" [OF g [symmetric] Inr False run [unfolded w2_def], folded w2_def]
      have "now w2 = now w1 + checkInterval"
        by (simp add: w2_def)
      with ih k show ?thesis
        by simp
    qed
  qed
qed

lemma SendImage_loop_world:
  assumes "SendImage_loop P c ctx taskID w = (r, w')"
  shows "\<exists>pr w2. pollUntilReady P c ctx taskID w = (pr, w2)
           \<and> trace w' = trace w2 \<and> slept w' = slept w2 \<and> now w' = now w2
           \<and> (\<forall>e. pr = Inl e \<longrightarrow> r = Error (Wrapf ''failed to get task result'' e))
           \<and> (\<forall>m. pr = Inr m \<longrightarrow>
                 (\<exists>text. r = Return text)
                 \<or> r = Error (New ''invalid solution format in response'')
                 \<or> r = Error (New ''text not found in solution''))
           \<and> (\<forall>m sol text. pr = Inr m \<longrightarrow> map_of m ''solution'' = Some (VMap sol)
                 \<longrightarrow> map_of sol ''text'' = Some (VString text) \<longrightarrow> r = Return text)"
proof -
  obtain pr w2 where p: "pollUntilReady P c ctx taskID w = (pr, w2)"
    by fastforce
  show ?thesis
  proof (cases pr)
    case (Inl e)
    with assms p show ?thesis
      by (intro exI [of _ pr] exI [of _ w2]) (auto simp: SendImage_loop_poll)
  next
    case (Inr m)
    with assms p show ?thesis
      by (intro exI [of _ pr] exI [of _ w2])
        (auto simp: SendImage_loop_poll Let_def assert_map_def assert_string_def
          split: option.splits goval.splits)
  qed
qed

lemma SolveAndReturnSolution_loop_world:
  assumes "SolveAndReturnSolution_loop P h ctx taskID w = (r, h', w')"
  shows "\<exists>pr w2. pollUntilReady P (Client h) ctx taskID w = (pr, w2)
           \<and> trace w' = trace w2 \<and> slept w' = slept w2 \<and> now w' = now w2
           \<and> h'\<lparr>UserAgent := UserAgent h, RespKey := RespKey h\<rparr> = h
           \<and> (\<forall>e. pr = Inl e \<longrightarrow> r = Error (Wrapf ''failed to get task result'' e))
           \<and> (\<forall>e. r = Error e \<longrightarrow> h' = h)
           \<and> (\<forall>g. r = Return g \<longrightarrow>
                 (\<exists>m sol. pr = Inr m \<and> map_of m ''solution'' = Some (VMap sol)
                    \<and> map_of sol ''gRecaptchaResponse'' = Some (VString g)
                    \<and> map_of sol ''userAgent'' = Some (VString (UserAgent h'))
                    \<and> map_of sol ''respKey'' = Some (VString (RespKey h'))))"
proof -
  obtain pr w2 where p: "pollUntilReady P (Client h) ctx taskID w = (pr, w2)"
    by fastforce
  show ?thesis
  proof (cases pr)
    case (Inl e)
    with assms p show ?thesis
      by (intro exI [of _ pr] exI [of _ w2]) (auto simp: SolveAndReturnSolution_loop_poll)
  next
    case (Inr m)
    with assms p show ?thesis
      by (intro exI [of _ pr] exI [of _ w2])
        (auto simp: SolveAndReturnSolution_loop_poll Let_def assert_map_def assert_string_def
          split: option.splits goval.splits)
  qed
qed

lemma makeRequest_world:
  assumes "makeRequest P ctx endpoint body w = (r, w')"
  shows "slept w' = slept w \<and> now w \<le> now w' \<and> (now w' \<le> ctx \<or> now w' = now w)
         \<and> (\<exists>new. trace w' = trace w @ new \<and> length new \<le> 1
               \<and> (\<forall>m. r = Inr m \<longrightarrow> length new = 1 \<and> now w' < ctx))"
proof (cases "sendable P endpoint body")
  case True
  from makeRequest_sendable [OF True assms] obtain req res
    where x: "trace w' = trace w @ [(req, res)]" "r = received res" "slept w' = slept w"
      "now w \<le> now w'" "now w' \<le> ctx \<or> now w' = now w" "res = Inl DeadlineExceeded \<or> now w' < ctx"
    by blast
  have "\<forall>m. r = Inr m \<longrightarrow> now w' < ctx"
    using x(2,6) by (auto simp: received_def)
  with x show ?thesis
    by (intro conjI exI [of _ "[(req, res)]"]) simp_all
next
  case False
  from makeRequest_unsendable [OF False assms] show ?thesis
    by (intro conjI exI [of _ "[]"]) auto
qed

lemma createTaskImage_world:
  assumes "createTaskImage P c ctx imgString w = (r, w1)"
  shows "slept w1 = slept w \<and> now w \<le> now w1 \<and> (now w1 \<le> ctx \<or> now w1 = now w)
         \<and> (\<exists>new. trace w1 = trace w @ new \<and> length new \<le> 1
               \<and> (\<forall>t. r = Return t \<longrightarrow> length new = 1 \<and> now w1 < ctx))"
proof -
  define w0 where "w0 = Println ''Creating task for image captcha...'' w"
  obtain m w2 where m: "makeRequest P ctx ''/createTask'' (imageTaskBody c imgString) w0 = (m, w2)"
    by fastforce
  from assms m have e: "trace w1 = trace w2" "slept w1 = slept w2" "now w1 = now w2"
      "\<forall>t. r = Return t \<longrightarrow> (\<exists>response. m = Inr response)"
    by (auto simp: createTaskImage_def w0_def Let_def
        split: sum.splits option.splits if_splits)
  from makeRequest_world [OF m] e show ?thesis
    by (auto simp: w0_def)
qed

lemma SendImage_phases:
  assumes "SendImage P c imgString w = (r, w')"
  obtains (failed) new where "trace w' = trace w @ new" and "length new \<le> 1"
      and "slept w' = slept w" and "now w \<le> now w'" and "now w' \<le> now w + defaultTimeout"
      and "\<And>s. r \<noteq> Return s"
  | (polled) taskID w1 x where "trace w1 = trace w @ [x]" and "slept w1 = slept w"
      and "now w \<le> now w1" and "now w1 < now w + defaultTimeout"
      and "SendImage_loop P c (now w + defaultTimeout) taskID w1 = (r, w')"
proof -
  obtain cr w1 where cr: "createTaskImage P c (now w + defaultTimeout) imgString w = (cr, w1)"
    by fastforce
  from createTaskImage_world [OF cr] obtain new where
    k: "slept w1 = slept w" "now w \<le> now w1" "now w1 \<le> now w + defaultTimeout \<or> now w1 = now w"
      "trace w1 = trace w @ new" "length new \<le> 1"
      "\<forall>t. cr = Return t \<longrightarrow> length new = 1 \<and> now w1 < now w + defaultTimeout"
    by blast
  show thesis
  proof (cases cr)
    case (Return taskID)
    with k obtain x where "new = [x]"
      by (cases new) auto
    with Return k cr assms show thesis
      by (intro polled [of w1 x taskID]) (simp_all add: SendImage_def)
  next
    case (Error err)
    with k cr assms show thesis
      by (intro failed [of new]) (auto simp: SendImage_def)
  next
    case (Panic p)
    with k cr assms show thesis
      by (intro failed [of new]) (auto simp: SendImage_def)
  qed
qed

lemma SolveAndReturnSolution_phases:
  assumes "SolveAndReturnSolution P h w = (r, h', w')"
  obtains (failed) new where "trace w' = trace w @ new" and "length new \<le> 1"
      and "slept w' = slept w" and "now w \<le> now w'" and "now w' \<le> now w + defaultTimeout"
      and "\<And>s. r \<noteq> Return s" and "h' = h"
  | (polled) taskID w1 x where "trace w1 = trace w @ [x]" and "slept w1 = slept w"
      and "now w \<le> now w1" and "now w1 < now w + defaultTimeout"
      and "SolveAndReturnSolution_loop P h (now w + defaultTimeout) taskID w1 = (r, h', w')"
proof -
  define w0 where "w0 = Println ''Creating HCaptcha proxyless task...'' w"
  let ?ctx = "now w + defaultTimeout"
  obtain m w2 where m: "makeRequest P ?ctx ''/createTask'' (hcaptchaTaskBody h) w0 = (m, w2)"
    by fastforce
  from makeRequest_world [OF m] obtain new where
    k: "slept w2 = slept w" "now w \<le> now w2" "now w2 \<le> ?ctx \<or> now w2 = now w"
      "trace w2 = trace w @ new" "length new \<le> 1"
      "\<forall>response. m = Inr response \<longrightarrow> length new = 1 \<and> now w2 < ?ctx"
    by (auto simp: w0_def)
  have le: "now w2 \<le> now w + defaultTimeout"
    using k(3) by auto
  have stop: thesis if "h' = h" "trace w' = trace w2" "slept w' = slept w2" "now w' = now w2"
      "\<forall>s. r \<noteq> Return s"
    using that k le by (intro failed [of new]) simp_all
  show thesis
  proof (cases m)
    case (Inl err)
    with assms m show thesis
      by (intro stop) (auto simp: SolveAndReturnSolution_def w0_def)
  next
    case (Inr response)
    define other where "other =
      (case assert_float64 (map_of response ''taskId'') of
         None \<Rightarrow>
           (Error (New ''failed to retrieve taskId from response''), h,
            Println ''Failed to retrieve taskId from response'' w2)
       | Some taskID \<Rightarrow>
           SolveAndReturnSolution_loop P h ?ctx taskID
             (Printf ''Task created successfully with ID: %f'' [AFloat taskID] w2))"
    have u: "SolveAndReturnSolution P h w =
      (case map_of response ''errorId'' of
         None \<Rightarrow> other
       | Some errMsg \<Rightarrow>
           (case assert_float64 (Some errMsg) of
              None \<Rightarrow> (Panic ''interface conversion: interface {} is not float64'', h, w2)
            | Some x \<Rightarrow>
                if x \<noteq> 0 then
                  (case assert_string (map_of response ''errorDescription'') of
                     None \<Rightarrow>
                       (Panic ''interface conversion: interface {} is not string'', h, w2)
                   | Some d \<Rightarrow>
                       (Error (New d), h, Printf ''API error creating task: %s'' [AStr d] w2))
                else other))"
      unfolding other_def using m Inr
      by (simp add: SolveAndReturnSolution_def w0_def Let_def)
    consider (o) "other = (r, h', w')"
      | (s) "h' = h" "trace w' = trace w2" "slept w' = slept w2" "now w' = now w2"
        "\<forall>s. r \<noteq> Return s"
      using assms unfolding u by (auto split: option.splits if_splits)
    then show thesis
    proof cases
      case o
      show thesis
      proof (cases "assert_float64 (map_of response ''taskId'')")
        case None
        with o show thesis
          by (intro stop) (auto simp: other_def)
      next
        case (Some taskID)
        from k Inr obtain x where "new = [x]" "now w2 < ?ctx"
          by (cases new) auto
        with o Some k show thesis
          by (intro polled [of "Printf ''Task created successfully with ID: %f'' [AFloat taskID] w2" x taskID])
            (simp_all add: other_def)
      qed
    next
      case s
      then show thesis
        by (rule stop)
    qed
  qed
qed

lemma received_Inr:
  assumes "received res = Inr m"
  shows "\<exists>code body. res = Inr (code, body) \<and> 200 \<le> code \<and> code < 300 \<and> json_Decode body = Inr m"
  using assms by (cases res) (auto simp: received_def split: sum.splits if_splits)

lemma ready_status:
  "assert_string (map_of m ''status'') = Some ''ready'' \<longleftrightarrow> map_of m ''status'' = Some (VString ''ready'')"
  by (auto simp: assert_string_def split: option.splits goval.splits)

text \<open>
  Polling stops at readiness, in every execution of both operations. \<open>new\<close> are the
  exchanges of the operation: the create request first, then the polls. No poll but the
  last has brought a ready response, and the sleeps are one full interval between two
  polls, none after the last.
\<close>

lemma SendImage_polls:
  assumes "SendImage P c imgString w = (r, w')"
  shows "\<exists>new. trace w' = trace w @ new
           \<and> (\<forall>x \<in> set (butlast (tl new)). \<not> ready_response (snd x))
           \<and> slept w' = slept w @ replicate (length (tl new) - 1) checkInterval"
  using assms
proof (cases rule: SendImage_phases)
  case (failed new)
  then show ?thesis
    by (intro exI [of _ new]) (cases new, simp_all)
next
  case (polled taskID w1 x)
  from SendImage_loop_world [OF polled(5)] obtain pr w2
    where p: "pollUntilReady P c (now w + defaultTimeout) taskID w1 = (pr, w2)"
      "trace w' = trace w2" "slept w' = slept w2"
    by (elim exE conjE)
  from pollUntilReady_trace [OF p(1)] obtain new
    where "trace w2 = trace w1 @ new" "\<forall>x \<in> set (butlast new). \<not> ready_response (snd x)"
      "slept w2 = slept w1 @ replicate (length new - 1) checkInterval"
    by (elim exE conjE)
  with p polled show ?thesis
    by (intro exI [of _ "x # new"]) simp
qed

lemma SolveAndReturnSolution_polls:
  assumes "SolveAndReturnSolution P h w = (r, h', w')"
  shows "\<exists>new. trace w' = trace w @ new
           \<and> (\<forall>x \<in> set (butlast (tl new)). \<not> ready_response (snd x))
           \<and> slept w' = slept w @ replicate (length (tl new) - 1) checkInterval"
  using assms
proof (cases rule: SolveAndReturnSolution_phases)
  case (failed new)
  then show ?thesis
    by (intro exI [of _ new]) (cases new, simp_all)
next
  case (polled taskID w1 x)
  from SolveAndReturnSolution_loop_world [OF polled(5)] obtain pr w2
    where p: "pollUntilReady P (Client h) (now w + defaultTimeout) taskID w1 = (pr, w2)"
      "trace w' = trace w2" "slept w' = slept w2"
    by (elim exE conjE)
  from pollUntilReady_trace [OF p(1)] obtain new
    where "trace w2 = trace w1 @ new" "\<forall>x \<in> set (butlast new). \<not> ready_response (snd x)"
      "slept w2 = slept w1 @ replicate (length new - 1) checkInterval"
    by (elim exE conjE)
  with p polled show ?thesis
    by (intro exI [of _ "x # new"]) simp
qed

subsection \<open>A service that is never ready\<close>

lemma http_Do_reply:
  assumes "http_Do P ctx req w = (res, w')"
  shows "res = Inl DeadlineExceeded \<and> ctx \<le> now w'
         \<or> (\<exists>latency rep. service P (map fst (trace w) @ [req]) = (latency, rep)
               \<and> res = (case rep of NetError e \<Rightarrow> Inl (Lib e)
                                   | HttpReply code body \<Rightarrow> Inr (code, body)))"
  using assms by (cases rule: http_Do_cases [of P w req ctx]) auto

lemma makeRequest_reply:
  assumes "sendable P endpoint body" and "makeRequest P ctx endpoint body w = (r, w')"
  shows "\<exists>req res. trace w' = trace w @ [(req, res)] \<and> r = received res
           \<and> (res = Inl DeadlineExceeded \<and> ctx \<le> now w'
              \<or> (\<exists>latency rep. service P (map fst (trace w) @ [req]) = (latency, rep)
                    \<and> res = (case rep of NetError e \<Rightarrow> Inl (Lib e)
                                        | HttpReply code body \<Rightarrow> Inr (code, body))))"
proof -
  from assms(1) obtain u where u: "url_Parse P (apiBaseURL @ endpoint) = Inr u"
      "encodable body" "http_NewRequest P u = None"
    by (auto simp: sendable_def split: sum.splits)
  define w1 where
    "w1 = Printf ''Sending request to %s with body: %v'' [AStr u, ANat (length (encode P body))] w"
  obtain res w2 where d: "http_Do P ctx (u, encode P body) w1 = (res, w2)"
    by fastforce
  from assms(2) u d have "r = received res \<and> now w' = now w2 \<and> trace w' = trace w2"
    by (auto simp: makeRequest_def json_Marshal_def received_def Let_def w1_def
        split: sum.splits if_splits prod.splits)
  with http_Do_world [OF d] http_Do_reply [OF d] show ?thesis
    by (intro exI [of _ "(u, encode P body)"] exI [of _ res]) (simp add: w1_def)
qed

lemma deadline_received:
  "received (Inl DeadlineExceeded) = Inl (Wrapf ''request failed'' DeadlineExceeded)"
  by (simp add: received_def)

lemma object_received:
  assumes "200 \<le> code" and "code < 300"
  shows "received (Inr (code, Some (VMap m))) = Inr m"
  using assms by (simp add: received_def json_Decode_def)

lemma getTaskResult_never_ready:
  assumes build: "\<forall>ep. \<exists>u. url_Parse P (apiBaseURL @ ep) = Inr u \<and> http_NewRequest P u = None"
    and nr: "\<forall>reqs. n < length reqs \<longrightarrow>
        (\<exists>latency code m. service P reqs = (latency, HttpReply code (Some (VMap m)))
           \<and> 200 \<le> code \<and> code < 300 \<and> map_of m ''status'' \<noteq> Some (VString ''ready''))"
    and n: "n \<le> length (trace w)"
    and run: "getTaskResult P c ctx taskID w = (r, w')"
  shows "length (trace w') = Suc (length (trace w))
         \<and> ((\<exists>m. r = Inr m \<and> map_of m ''status'' \<noteq> Some (VString ''ready''))
            \<or> (\<exists>e. r = Inl e \<and> is_deadline e \<and> ctx \<le> now w'))"
proof -
  define body where "body = VMap [(''clientKey'', VString (APIKey c)), (''taskId'', VFloat taskID)]"
  define w0 where "w0 = Printf ''Checking result for task ID: %f'' [AFloat taskID] w"
  from build [THEN spec, of "''/getTaskResult''"] obtain u
    where "url_Parse P (apiBaseURL @ ''/getTaskResult'') = Inr u" "http_NewRequest P u = None"
    by (elim exE conjE)
  then have s: "sendable P ''/getTaskResult'' body"
    by (simp add: sendable_def body_def)
  obtain m w1 where m: "makeRequest P ctx ''/getTaskResult'' body w0 = (m, w1)"
    by fastforce
  with run have r: "r = map_sum (Wrapf ''failed to get task result'') id m"
      "trace w' = trace w1" "now w' = now w1"
    by (auto simp: getTaskResult_def body_def w0_def split: sum.splits)
  from makeRequest_reply [OF s m] obtain req res
    where x: "trace w1 = trace w0 @ [(req, res)]" "m = received res"
      "res = Inl DeadlineExceeded \<and> ctx \<le> now w1
       \<or> (\<exists>latency rep. service P (map fst (trace w0) @ [req]) = (latency, rep)
             \<and> res = (case rep of NetError e \<Rightarrow> Inl (Lib e)
                                 | HttpReply code body \<Rightarrow> Inr (code, body)))"
    by (elim exE conjE)
  have len: "length (trace w') = Suc (length (trace w))"
    using r x(1) by (simp add: w0_def)
  from x(3) show ?thesis
  proof
    assume "res = Inl DeadlineExceeded \<and> ctx \<le> now w1"
    with r x(2) len show ?thesis
      by (simp add: deadline_received)
  next
    assume "\<exists>latency rep. service P (map fst (trace w0) @ [req]) = (latency, rep)
             \<and> res = (case rep of NetError e \<Rightarrow> Inl (Lib e)
                                 | HttpReply code body \<Rightarrow> Inr (code, body))"
    then obtain latency rep where y: "service P (map fst (trace w0) @ [req]) = (latency, rep)"
        "res = (case rep of NetError e \<Rightarrow> Inl (Lib e) | HttpReply code body \<Rightarrow> Inr (code, body))"
      by (elim exE conjE)
    have "n < length (map fst (trace w0) @ [req])"
      using n by (simp add: w0_def)
    with nr obtain latency' code mm
      where z: "service P (map fst (trace w0) @ [req]) = (latency', HttpReply code (Some (VMap mm)))"
        "200 \<le> code" "code < 300" "map_of mm ''status'' \<noteq> Some (VString ''ready'')"
      by blast
    from y(1) z(1) have "rep = HttpReply code (Some (VMap mm))"
      by simp
    with y(2) have "res = Inr (code, Some (VMap mm))"
      by simp
    with z x(2) have "m = Inr mm"
      by (simp add: object_received)
    with r z len show ?thesis
      by simp
  qed
qed

lemma pollUntilReady_never_ready:
  assumes build: "\<forall>ep. \<exists>u. url_Parse P (apiBaseURL @ ep) = Inr u \<and> http_NewRequest P u = None"
    and nr: "\<forall>reqs. n < length reqs \<longrightarrow>
        (\<exists>latency code m. service P reqs = (latency, HttpReply code (Some (VMap m)))
           \<and> 200 \<le> code \<and> code < 300 \<and> map_of m ''status'' \<noteq> Some (VString ''ready''))"
    and n: "n \<le> length (trace w)"
  shows "\<exists>e w'. pollUntilReady P c ctx taskID w = (Inl e, w') \<and> is_deadline e \<and> ctx \<le> now w'"
  using build nr n
proof (induction P c ctx taskID w rule: pollUntilReady.induct)
  case (1 P c ctx taskID w)
  obtain g w1 where g: "getTaskResult P c ctx taskID w = (g, w1)"
    by fastforce
  note k = getTaskResult_never_ready [OF "1.prems" g]
  show ?case
  proof (cases g)
    case (Inl err)
    with k g show ?thesis
      by (simp add: pollUntilReady.simps [of P c ctx taskID w])
  next
    case (Inr response)
    with k have nready: "assert_string (map_of response ''status'') \<noteq> Some ''ready''"
      by (simp add: ready_status)
    define w2 where "w2 = time_Sleep checkInterval
        (Printf ''Task ID %f is still processing...'' [AFloat taskID] w1)"
    have "n \<le> length (trace w2)"
      using k "1.prems"(3) by (simp add: w2_def)
    from "1.IH" [OF g [symmetric] Inr nready "1.prems"(1,2) this [unfolded w2_def]] g Inr nready
    show ?thesis
      by (simp add: pollUntilReady.simps [of P c ctx taskID w])
  qed
qed

lemma createTask_reply:
  assumes build: "\<forall>ep. \<exists>u. url_Parse P (apiBaseURL @ ep) = Inr u \<and> http_NewRequest P u = None"
    and created: "\<forall>reqs. length reqs = Suc (length (trace w)) \<longrightarrow>
        (\<exists>latency code m t. service P reqs = (latency, HttpReply code (Some (VMap m)))
           \<and> 200 \<le> code \<and> code < 300
           \<and> (map_of m ''errorId'' = None \<or> map_of m ''errorId'' = Some (VFloat 0))
           \<and> map_of m ''taskId'' = Some (VFloat t))"
    and enc: "encodable body"
    and run: "makeRequest P ctx ''/createTask'' body w = (m, w1)"
  shows "length (trace w1) = Suc (length (trace w))
         \<and> (m = Inl (Wrapf ''request failed'' DeadlineExceeded) \<and> ctx \<le> now w1
            \<or> (\<exists>response t. m = Inr response
                  \<and> (map_of response ''errorId'' = None
                     \<or> map_of response ''errorId'' = Some (VFloat 0))
                  \<and> map_of response ''taskId'' = Some (VFloat t)))"
proof -
  from build [THEN spec, of "''/createTask''"] obtain u
    where "url_Parse P (apiBaseURL @ ''/createTask'') = Inr u" "http_NewRequest P u = None"
    by (elim exE conjE)
  with enc have s: "sendable P ''/createTask'' body"
    by (simp add: sendable_def)
  from makeRequest_reply [OF s run] obtain req res
    where x: "trace w1 = trace w @ [(req, res)]" "m = received res"
      "res = Inl DeadlineExceeded \<and> ctx \<le> now w1
       \<or> (\<exists>latency rep. service P (map fst (trace w) @ [req]) = (latency, rep)
             \<and> res = (case rep of NetError e \<Rightarrow> Inl (Lib e)
                                 | HttpReply code body \<Rightarrow> Inr (code, body)))"
    by (elim exE conjE)
  have len: "length (trace w1) = Suc (length (trace w))"
    using x(1) by simp
  from x(3) show ?thesis
  proof
    assume "res = Inl DeadlineExceeded \<and> ctx \<le> now w1"
    with x(2) len show ?thesis
      by (simp add: deadline_received)
  next
    assume "\<exists>latency rep. service P (map fst (trace w) @ [req]) = (latency, rep)
             \<and> res = (case rep of NetError e \<Rightarrow> Inl (Lib e)
                                 | HttpReply code body \<Rightarrow> Inr (code, body))"
    then obtain latency rep where y: "service P (map fst (trace w) @ [req]) = (latency, rep)"
        "res = (case rep of NetError e \<Rightarrow> Inl (Lib e) | HttpReply code body \<Rightarrow> Inr (code, body))"
      by (elim exE conjE)
    have "length (map fst (trace w) @ [req]) = Suc (length (trace w))"
      by simp
    with created obtain latency' code mm t
      where z: "service P (map fst (trace w) @ [req]) = (latency', HttpReply code (Some (VMap mm)))"
        "200 \<le> code" "code < 300"
        "map_of mm ''errorId'' = None \<or> map_of mm ''errorId'' = Some (VFloat 0)"
        "map_of mm ''taskId'' = Some (VFloat t)"
      by blast
    from y(1) z(1) have "rep = HttpReply code (Some (VMap mm))"
      by simp
    with y(2) have "res = Inr (code, Some (VMap mm))"
      by simp
    with z x(2) have "m = Inr mm"
      by (simp add: object_received)
    with z len show ?thesis
      by simp
  qed
qed

subsection \<open>Task creation\<close>

lemma createTaskImage_api_error:
  assumes "makeRequest P ctx ''/createTask'' (imageTaskBody c imgString)
             (Println ''Creating task for image captcha...'' w) = (Inr response, w1)"
    and "map_of response ''errorId'' = Some (VFloat x)" and "x \<noteq> 0"
    and "map_of response ''errorDescription'' = Some (VString d)"
  shows "createTaskImage P c ctx imgString w
         = (Error (New d), Printf ''API error creating task: %s'' [AStr d] w1)"
  using assms by (simp add: createTaskImage_def assert_float64_def assert_string_def)

lemma createTaskImage_no_taskId:
  assumes "makeRequest P ctx ''/createTask'' (imageTaskBody c imgString)
             (Println ''Creating task for image captcha...'' w) = (Inr response, w1)"
    and "map_of response ''errorId'' = None \<or> map_of response ''errorId'' = Some (VFloat 0)"
    and "assert_float64 (map_of response ''taskId'') = None"
  shows "createTaskImage P c ctx imgString w
         = (Error (New ''failed to retrieve taskId from response''),
            Println ''Failed to retrieve taskId from response'' w1)"
  using assms by (auto simp: createTaskImage_def assert_float64_def)

subsection \<open>The configuration across a solve\<close>

lemma pollUntilReady_Inl_last:
  assumes "pollUntilReady P c ctx taskID w = (Inl e, w')" and "trace w' \<noteq> trace w"
  shows "\<not> ready_response (snd (last (trace w')))"
  using assms
proof (induction P c ctx taskID w rule: pollUntilReady.induct)
  case (1 P c ctx taskID w)
  obtain g w1 where g: "getTaskResult P c ctx taskID w = (g, w1)"
    by fastforce
  show ?case
  proof (cases g)
    case (Inl err)
    with "1.prems"(1) g have e: "w' = w1"
      by (auto simp: pollUntilReady.simps [of P c ctx taskID w])
    with getTaskResult_Inl [OF g [unfolded Inl]] "1.prems"(2)
    obtain req res e' where "trace w1 = trace w @ [(req, res)]" "received res = Inl e'"
      by auto
    with e show ?thesis
      by (simp add: ready_response_def)
  next
    case (Inr response)
    with getTaskResult_Inr [OF g [unfolded Inr]] obtain req res
      where x: "trace w1 = trace w @ [(req, res)]" "received res = Inr response"
      by auto
    show ?thesis
    proof (cases "assert_string (map_of response ''status'') = Some ''ready''")
      case True
      with "1.prems"(1) g Inr show ?thesis
        by (simp add: pollUntilReady.simps [of P c ctx taskID w])
    next
      case False
      define w2 where "w2 = time_Sleep checkInterval
        (Printf ''Task ID %f is still processing...'' [AFloat taskID] w1)"
      from "1.prems"(1) g Inr False have run: "pollUntilReady P c ctx taskID w2 = (Inl e, w')"
        by (simp add: pollUntilReady.simps [of P c ctx taskID w] w2_def)
      have nr: "\<not> ready_response res"
        using x False by (simp add: ready_response_def)
      show ?thesis
      proof (cases "trace w' = trace w2")
        case True
        with x nr show ?thesis
          by (simp add: w2_def)
      next
        case False
        from "1.IH" [OF g [symmetric] Inr \<open>assert_string (map_of response ''status'') \<noteq> Some ''ready''\<close>
            run [unfolded w2_def]] False
        show ?thesis
          by (simp add: w2_def)
      qed
    qed
  qed
qed

lemma SolveAndReturnSolution_loop_success:
  assumes "pollUntilReady P (Client h) ctx taskID w = (Inr m, w2)"
    and "map_of m ''solution'' = Some (VMap sol)"
    and "map_of sol ''gRecaptchaResponse'' = Some (VString g)"
    and "map_of sol ''userAgent'' = Some (VString ua)"
    and "map_of sol ''respKey'' = Some (VString k)"
  shows "fst (SolveAndReturnSolution_loop P h ctx taskID w) = Return g
         \<and> fst (snd (SolveAndReturnSolution_loop P h ctx taskID w))
           = h\<lparr>UserAgent := ua, RespKey := k\<rparr>"
  using assms
  by (simp add: SolveAndReturnSolution_loop_poll assert_map_def assert_string_def Let_def)

lemma SolveAndReturnSolution_frame:
  assumes "SolveAndReturnSolution P h w = (r, h', w')"
  shows "Client h' = Client h \<and> WebsiteURL h' = WebsiteURL h \<and> WebsiteKey h' = WebsiteKey h
         \<and> IsInvisible h' = IsInvisible h \<and> IsEnterprise h' = IsEnterprise h
         \<and> EnterprisePayload h' = EnterprisePayload h \<and> SoftID h' = SoftID h
       \<and> (\<forall>e. r = Error e \<longrightarrow> UserAgent h' = UserAgent h \<and> RespKey h' = RespKey h)
       \<and> (\<forall>g. r = Return g \<longrightarrow>
             (\<exists>req code body m sol. trace w' \<noteq> [] \<and> last (trace w') = (req, Inr (code, body))
                \<and> json_Decode body = Inr m \<and> map_of m ''status'' = Some (VString ''ready'')
                \<and> map_of m ''solution'' = Some (VMap sol)
                \<and> map_of sol ''gRecaptchaResponse'' = Some (VString g)
                \<and> map_of sol ''userAgent'' = Some (VString (UserAgent h'))
                \<and> map_of sol ''respKey'' = Some (VString (RespKey h'))))"
  using assms
proof (cases rule: SolveAndReturnSolution_phases)
  case (failed new)
  then show ?thesis
    by simp
next
  case (polled taskID w1 x)
  from SolveAndReturnSolution_loop_world [OF polled(5)] obtain pr w2
    where p: "pollUntilReady P (Client h) (now w + defaultTimeout) taskID w1 = (pr, w2)"
      and t: "trace w' = trace w2"
      and f: "h'\<lparr>UserAgent := UserAgent h, RespKey := RespKey h\<rparr> = h"
      and e: "\<forall>e. r = Error e \<longrightarrow> h' = h"
      and g: "\<forall>g. r = Return g \<longrightarrow>
                 (\<exists>m sol. pr = Inr m \<and> map_of m ''solution'' = Some (VMap sol)
                    \<and> map_of sol ''gRecaptchaResponse'' = Some (VString g)
                    \<and> map_of sol ''userAgent'' = Some (VString (UserAgent h'))
                    \<and> map_of sol ''respKey'' = Some (VString (RespKey h')))"
    by (elim exE conjE)
  from pollUntilReady_trace [OF p] obtain new
    where n: "trace w2 = trace w1 @ new"
      "\<forall>m. pr = Inr m \<longrightarrow> new \<noteq> [] \<and> received (snd (last new)) = Inr m
         \<and> assert_string (map_of m ''status'') = Some ''ready''"
    by (elim exE conjE)
  have frame: "Client h' = Client h \<and> WebsiteURL h' = WebsiteURL h \<and> WebsiteKey h' = WebsiteKey h
         \<and> IsInvisible h' = IsInvisible h \<and> IsEnterprise h' = IsEnterprise h
         \<and> EnterprisePayload h' = EnterprisePayload h \<and> SoftID h' = SoftID h"
    using f by (cases h, cases h') simp
  have err: "\<forall>e. r = Error e \<longrightarrow> UserAgent h' = UserAgent h \<and> RespKey h' = RespKey h"
    using e by simp
  have ret: "\<exists>req code body m sol. trace w' \<noteq> [] \<and> last (trace w') = (req, Inr (code, body))
                \<and> json_Decode body = Inr m \<and> map_of m ''status'' = Some (VString ''ready'')
                \<and> map_of m ''solution'' = Some (VMap sol)
                \<and> map_of sol ''gRecaptchaResponse'' = Some (VString g)
                \<and> map_of sol ''userAgent'' = Some (VString (UserAgent h'))
                \<and> map_of sol ''respKey'' = Some (VString (RespKey h'))"
    if "r = Return g" for g
  proof -
    from g [rule_format, OF that] obtain m sol where s: "pr = Inr m" "map_of m ''solution'' = Some (VMap sol)"
        "map_of sol ''gRecaptchaResponse'' = Some (VString g)"
        "map_of sol ''userAgent'' = Some (VString (UserAgent h'))"
        "map_of sol ''respKey'' = Some (VString (RespKey h'))"
      by (elim exE conjE)
    with n(2) have l: "new \<noteq> []" "received (snd (last new)) = Inr m"
        "map_of m ''status'' = Some (VString ''ready'')"
      by (simp_all add: ready_status)
    from received_Inr [OF l(2)] obtain code body
      where b: "snd (last new) = Inr (code, body)" "json_Decode body = Inr m"
      by (elim exE conjE)
    have "last (trace w') = (fst (last new), Inr (code, body))" "trace w' \<noteq> []"
      using t n(1) l(1) b(1) by (simp_all add: prod_eq_iff)
    with b s l show ?thesis
      by (intro exI [of _ "fst (last new)"] exI [of _ code] exI [of _ body] exI [of _ m]
          exI [of _ sol]) simp
  qed
  from frame err ret show ?thesis
    by (intro conjI allI impI) simp_all
qed

section \<open>The claims\<close>

lemmas run_defs = SendImage_def createTaskImage_def makeRequest_def getTaskResult_def
  http_Do_def json_Marshal_def json_Decode_def imageTaskBody_def hcaptchaTaskBody_def
  mock_def scripted_def ok_def boot_def NewClient_def apiBaseURL_def
  assert_float64_def assert_string_def assert_map_def defaultTimeout_def second_def
  checkInterval_def Let_def SolveAndReturnSolution_def NewHCaptchaProxyless_def

text \<open>
  C1. In the scenario where the first poll is answered with status "processing" and the
  second with status "ready" and the solution text "AB12", \<^verbatim>\<open>SendImage\<close> sleeps once, for
  the interval of 2 seconds, between the two polls and returns "AB12" with no error. The
  scripted service answers the create request with a task id; the latencies \<open>l0\<close>, \<open>l1\<close>,
  \<open>l2\<close> of the three exchanges are arbitrary within the 60 seconds of the operation.
\<close>

theorem C1_processing_then_ready:
  assumes "l0 + l1 + l2 + checkInterval < defaultTimeout"
  shows "case SendImage
           (mock (scripted
              [(l0, ok [(''errorId'', VFloat 0), (''taskId'', VFloat taskID)]),
               (l1, ok [(''status'', VString ''processing'')]),
               (l2, ok [(''status'', VString ''ready''),
                        (''solution'', VMap [(''text'', VString ''AB12'')])])]))
           c imgString boot
         of (r, w') \<Rightarrow>
           r = Return ''AB12'' \<and> slept w' = [checkInterval] \<and> checkInterval = 2 * second
           \<and> now w' = l0 + l1 + checkInterval + l2
           \<and> map (fst \<circ> fst) (trace w')
             = [apiBaseURL @ ''/createTask'', apiBaseURL @ ''/getTaskResult'',
                apiBaseURL @ ''/getTaskResult'']"
  using assms by (simp add: run_defs SendImage_loop.simps)

text \<open>The scenario with latencies of 100, 200 and 300 nanoseconds.\<close>

definition ab12_service :: "request list \<Rightarrow> nat \<times> reply" where
  "ab12_service =
     scripted [(100, ok [(''errorId'', VFloat 0), (''taskId'', VFloat 7)]),
               (200, ok [(''status'', VString ''processing'')]),
               (300, ok [(''status'', VString ''ready''),
                         (''solution'', VMap [(''text'', VString ''AB12'')])])]"

theorem C1_witness:
  "(100::nat) + 200 + 300 + checkInterval < defaultTimeout
   \<and> fst (SendImage (mock ab12_service) (NewClient ''key'') ''aGVsbG8='' boot) = Return ''AB12''
   \<and> slept (snd (SendImage (mock ab12_service) (NewClient ''key'') ''aGVsbG8='' boot))
     = [2000000000]
   \<and> now (snd (SendImage (mock ab12_service) (NewClient ''key'') ''aGVsbG8='' boot))
     = 2000000600"
proof -
  have h: "(100::nat) + 200 + 300 + checkInterval < defaultTimeout"
    by (simp add: checkInterval_def defaultTimeout_def second_def)
  from C1_processing_then_ready [OF h, of 7 "NewClient ''key''" "''aGVsbG8=''"] h show ?thesis
    by (simp add: split_beta checkInterval_def second_def ab12_service_def)
qed

text \<open>
  C2. The claim: every deviation of a response from the declared shape (a missing or
  mistyped \<^verbatim>\<open>errorId\<close>, \<^verbatim>\<open>errorDescription\<close>, \<^verbatim>\<open>userAgent\<close> or \<^verbatim>\<open>respKey\<close>, a
  non-object solution, a missing text) comes back as a returned error, and no operation
  panics. The code checks \<^verbatim>\<open>taskId\<close>, \<^verbatim>\<open>status\<close>, \<^verbatim>\<open>solution\<close>, \<^verbatim>\<open>text\<close> and
  \<^verbatim>\<open>gRecaptchaResponse\<close> with the comma-ok form, but asserts the other four fields in the
  single-value form. The runs below end in a panic: a create response whose
  \<^verbatim>\<open>errorId\<close> is the string "1"; a create response with \<^verbatim>\<open>errorId\<close> 1 and no
  \<^verbatim>\<open>errorDescription\<close>; a ready HCaptcha result without \<^verbatim>\<open>userAgent\<close>; and one with
  \<^verbatim>\<open>userAgent\<close> but without \<^verbatim>\<open>respKey\<close>, where \<^verbatim>\<open>UserAgent\<close> has been overwritten
  before the panic.
\<close>

theorem C2_unchecked_assertions_panic:
  "fst (SendImage (mock (scripted [(0, ok [(''errorId'', VString ''1'')])]))
         (NewClient ''key'') ''aGVsbG8='' boot)
     = Panic ''interface conversion: interface {} is not float64''
   \<and> fst (SendImage (mock (scripted [(0, ok [(''errorId'', VFloat 1)])]))
           (NewClient ''key'') ''aGVsbG8='' boot)
     = Panic ''interface conversion: interface {} is not string''
   \<and> fst (SolveAndReturnSolution
           (mock (scripted
              [(0, ok [(''errorId'', VFloat 0), (''taskId'', VFloat 7)]),
               (0, ok [(''status'', VString ''ready''),
                       (''solution'', VMap [(''gRecaptchaResponse'', VString ''tok'')])])]))
           (NewHCaptchaProxyless (NewClient ''key'')) boot)
     = Panic ''interface conversion: interface {} is not string''
   \<and> (case SolveAndReturnSolution
           (mock (scripted
              [(0, ok [(''errorId'', VFloat 0), (''taskId'', VFloat 7)]),
               (0, ok [(''status'', VString ''ready''),
                       (''solution'', VMap [(''gRecaptchaResponse'', VString ''tok''),
                                            (''userAgent'', VString ''UA'')])])]))
           (NewHCaptchaProxyless (NewClient ''key'')) boot
         of (r, h, w) \<Rightarrow>
           r = Panic ''interface conversion: interface {} is not string''
           \<and> UserAgent h = ''UA'')"
  by (simp add: run_defs SolveAndReturnSolution_loop.simps)

text \<open>
  C3. When the response to the create request has a non-zero \<^verbatim>\<open>errorId\<close> (with its
  \<^verbatim>\<open>errorDescription\<close> string), \<^verbatim>\<open>createTaskImage\<close> and \<^verbatim>\<open>SolveAndReturnSolution\<close>
  return no task handle but an error whose message is the \<^verbatim>\<open>errorDescription\<close>,
  verbatim. \<^verbatim>\<open>SendImage\<close>, through which \<^verbatim>\<open>createTaskImage\<close> is reached, hands this error
  on wrapped with \<^verbatim>\<open>%w\<close> under the prefix "failed to send image".
\<close>

theorem C3_api_error_description_verbatim:
  assumes "map_of response ''errorId'' = Some (VFloat x)" and "x \<noteq> 0"
    and "map_of response ''errorDescription'' = Some (VString d)"
  shows "(makeRequest P ctx ''/createTask'' (imageTaskBody c imgString)
            (Println ''Creating task for image captcha...'' w) = (Inr response, w1)
          \<longrightarrow> fst (createTaskImage P c ctx imgString w) = Error (New d) \<and> message (New d) = d)
       \<and> (makeRequest P (now w + defaultTimeout) ''/createTask'' (imageTaskBody c imgString)
            (Println ''Creating task for image captcha...'' w) = (Inr response, w1)
          \<longrightarrow> fst (SendImage P c imgString w) = Error (Wrapf ''failed to send image'' (New d)))
       \<and> (makeRequest P (now w + defaultTimeout) ''/createTask'' (hcaptchaTaskBody h)
            (Println ''Creating HCaptcha proxyless task...'' w) = (Inr response, w1)
          \<longrightarrow> fst (SolveAndReturnSolution P h w) = Error (New d) \<and> message (New d) = d)"
proof (intro conjI impI)
  assume "makeRequest P ctx ''/createTask'' (imageTaskBody c imgString)
            (Println ''Creating task for image captcha...'' w) = (Inr response, w1)"
  from createTaskImage_api_error [OF this assms]
  show "fst (createTaskImage P c ctx imgString w) = Error (New d)"
    by simp
next
  assume "makeRequest P (now w + defaultTimeout) ''/createTask'' (imageTaskBody c imgString)
            (Println ''Creating task for image captcha...'' w) = (Inr response, w1)"
  from createTaskImage_api_error [OF this assms]
  show "fst (SendImage P c imgString w) = Error (Wrapf ''failed to send image'' (New d))"
    by (simp add: SendImage_def)
next
  assume "makeRequest P (now w + defaultTimeout) ''/createTask'' (hcaptchaTaskBody h)
            (Println ''Creating HCaptcha proxyless task...'' w) = (Inr response, w1)"
  with assms show "fst (SolveAndReturnSolution P h w) = Error (New d)"
    by (simp add: SolveAndReturnSolution_def assert_float64_def assert_string_def)
qed simp_all

text \<open>The error response the service gives for an unknown API key.\<close>

definition key_error :: response where
  "key_error = [(''errorId'', VFloat 1), (''errorCode'', VString ''ERROR_KEY_DOES_NOT_EXIST''),
                (''errorDescription'', VString ''Account authorization key not found in the system'')]"

theorem C3_witness:
  "fst (createTaskImage (mock (scripted [(0, ok key_error)])) (NewClient ''key'')
          defaultTimeout ''aGVsbG8='' boot)
     = Error (New ''Account authorization key not found in the system'')
   \<and> fst (SendImage (mock (scripted [(0, ok key_error)])) (NewClient ''key'') ''aGVsbG8='' boot)
     = Error (Wrapf ''failed to send image''
               (New ''Account authorization key not found in the system''))
   \<and> fst (SolveAndReturnSolution (mock (scripted [(0, ok key_error)]))
           (NewHCaptchaProxyless (NewClient ''key'')) boot)
     = Error (New ''Account authorization key not found in the system'')"
proof -
  let ?P = "mock (scripted [(0, ok key_error)])"
  let ?c = "NewClient ''key''"
  let ?h = "NewHCaptchaProxyless ?c"
  have a: "map_of key_error ''errorId'' = Some (VFloat 1)" and b: "(1::rat) \<noteq> 0"
    and d: "map_of key_error ''errorDescription''
            = Some (VString ''Account authorization key not found in the system'')"
    by (simp_all add: key_error_def)
  have n: "now boot + defaultTimeout = defaultTimeout"
    by (simp add: boot_def)
  have i: "fst (makeRequest ?P defaultTimeout ''/createTask'' (imageTaskBody ?c ''aGVsbG8='')
             (Println ''Creating task for image captcha...'' boot)) = Inr key_error"
    by (simp add: run_defs Println_def)
  have j: "fst (makeRequest ?P defaultTimeout ''/createTask'' (hcaptchaTaskBody ?h)
             (Println ''Creating HCaptcha proxyless task...'' boot)) = Inr key_error"
    by (simp add: run_defs Println_def)
  from i C3_api_error_description_verbatim [OF a b d, of ?P defaultTimeout ?c "''aGVsbG8=''" boot
      "snd (makeRequest ?P defaultTimeout ''/createTask'' (imageTaskBody ?c ''aGVsbG8='')
             (Println ''Creating task for image captcha...'' boot))" ?h]
  have "fst (createTaskImage ?P ?c defaultTimeout ''aGVsbG8='' boot)
          = Error (New ''Account authorization key not found in the system'')"
    and "fst (SendImage ?P ?c ''aGVsbG8='' boot)
          = Error (Wrapf ''failed to send image''
               (New ''Account authorization key not found in the system''))"
    by (simp_all add: n prod_eq_iff)
  moreover from j C3_api_error_description_verbatim [OF a b d, of ?P defaultTimeout ?c "''aGVsbG8=''" boot
      "snd (makeRequest ?P defaultTimeout ''/createTask'' (hcaptchaTaskBody ?h)
             (Println ''Creating HCaptcha proxyless task...'' boot))" ?h]
  have "fst (SolveAndReturnSolution ?P ?h boot)
          = Error (New ''Account authorization key not found in the system'')"
    by (simp add: n prod_eq_iff)
  ultimately show ?thesis
    by simp
qed

text \<open>
  C4. When the response to the create request has no numeric \<^verbatim>\<open>taskId\<close> (and its
  \<^verbatim>\<open>errorId\<close> is absent or zero), the solve operation returns the error "failed to
  retrieve taskId from response" and makes no further request: its trace ends with the
  create request.
\<close>

theorem C4_missing_taskId_no_poll:
  assumes "map_of response ''errorId'' = None \<or> map_of response ''errorId'' = Some (VFloat 0)"
    and "assert_float64 (map_of response ''taskId'') = None"
  shows "(makeRequest P (now w + defaultTimeout) ''/createTask'' (imageTaskBody c imgString)
            (Println ''Creating task for image captcha...'' w) = (Inr response, w1)
          \<longrightarrow> fst (SendImage P c imgString w)
                = Error (Wrapf ''failed to send image''
                          (New ''failed to retrieve taskId from response''))
              \<and> trace (snd (SendImage P c imgString w)) = trace w1)
       \<and> (makeRequest P (now w + defaultTimeout) ''/createTask'' (hcaptchaTaskBody h)
            (Println ''Creating HCaptcha proxyless task...'' w) = (Inr response, w1)
          \<longrightarrow> fst (SolveAndReturnSolution P h w)
                = Error (New ''failed to retrieve taskId from response'')
              \<and> trace (snd (snd (SolveAndReturnSolution P h w))) = trace w1)"
proof (intro conjI impI)
  assume "makeRequest P (now w + defaultTimeout) ''/createTask'' (imageTaskBody c imgString)
            (Println ''Creating task for image captcha...'' w) = (Inr response, w1)"
  note r = createTaskImage_no_taskId [OF this assms]
  from r show "fst (SendImage P c imgString w)
                = Error (Wrapf ''failed to send image''
                          (New ''failed to retrieve taskId from response''))"
    by (simp add: SendImage_def)
  from r show "trace (snd (SendImage P c imgString w)) = trace w1"
    by (simp add: SendImage_def)
next
  assume m: "makeRequest P (now w + defaultTimeout) ''/createTask'' (hcaptchaTaskBody h)
            (Println ''Creating HCaptcha proxyless task...'' w) = (Inr response, w1)"
  with assms have "SolveAndReturnSolution P h w
      = (Error (New ''failed to retrieve taskId from response''), h,
         Println ''Failed to retrieve taskId from response'' w1)"
    by (auto simp: SolveAndReturnSolution_def assert_float64_def)
  then show "fst (SolveAndReturnSolution P h w)
                = Error (New ''failed to retrieve taskId from response'')"
    and "trace (snd (snd (SolveAndReturnSolution P h w))) = trace w1"
    by simp_all
qed

text \<open>A create response whose \<^verbatim>\<open>taskId\<close> is a string.\<close>

definition no_task_id :: response where
  "no_task_id = [(''errorId'', VFloat 0), (''taskId'', VString ''7'')]"

theorem C4_witness:
  "fst (SendImage (mock (scripted [(0, ok no_task_id)])) (NewClient ''key'') ''aGVsbG8='' boot)
     = Error (Wrapf ''failed to send image'' (New ''failed to retrieve taskId from response''))
   \<and> map (fst \<circ> fst)
        (trace (snd (SendImage (mock (scripted [(0, ok no_task_id)])) (NewClient ''key'')
                      ''aGVsbG8='' boot)))
     = [''https://api.anti-captcha.com/createTask'']
   \<and> fst (SolveAndReturnSolution (mock (scripted [(0, ok no_task_id)]))
           (NewHCaptchaProxyless (NewClient ''key'')) boot)
     = Error (New ''failed to retrieve taskId from response'')
   \<and> map (fst \<circ> fst)
        (trace (snd (snd (SolveAndReturnSolution (mock (scripted [(0, ok no_task_id)]))
                      (NewHCaptchaProxyless (NewClient ''key'')) boot))))
     = [''https://api.anti-captcha.com/createTask'']"
proof -
  let ?P = "mock (scripted [(0, ok no_task_id)])"
  let ?c = "NewClient ''key''"
  let ?h = "NewHCaptchaProxyless ?c"
  let ?mi = "makeRequest ?P defaultTimeout ''/createTask'' (imageTaskBody ?c ''aGVsbG8='')
             (Println ''Creating task for image captcha...'' boot)"
  let ?mh = "makeRequest ?P defaultTimeout ''/createTask'' (hcaptchaTaskBody ?h)
             (Println ''Creating HCaptcha proxyless task...'' boot)"
  have a: "map_of no_task_id ''errorId'' = None \<or> map_of no_task_id ''errorId'' = Some (VFloat 0)"
    and b: "assert_float64 (map_of no_task_id ''taskId'') = None"
    by (simp_all add: no_task_id_def assert_float64_def)
  have n: "now boot + defaultTimeout = defaultTimeout"
    by (simp add: boot_def)
  have i: "fst ?mi = Inr no_task_id"
    and ti: "map (fst \<circ> fst) (trace (snd ?mi)) = [''https://api.anti-captcha.com/createTask'']"
    by (simp_all add: run_defs Println_def)
  have j: "fst ?mh = Inr no_task_id"
    and tj: "map (fst \<circ> fst) (trace (snd ?mh)) = [''https://api.anti-captcha.com/createTask'']"
    by (simp_all add: run_defs Println_def)
  from i ti C4_missing_taskId_no_poll [OF a b, of ?P boot ?c "''aGVsbG8=''" "snd ?mi" ?h]
  have "fst (SendImage ?P ?c ''aGVsbG8='' boot)
          = Error (Wrapf ''failed to send image'' (New ''failed to retrieve taskId from response''))"
    and "map (fst \<circ> fst) (trace (snd (SendImage ?P ?c ''aGVsbG8='' boot)))
          = [''https://api.anti-captcha.com/createTask'']"
    by (simp_all add: n prod_eq_iff)
  moreover from j tj C4_missing_taskId_no_poll [OF a b, of ?P boot ?c "''aGVsbG8=''" "snd ?mh" ?h]
  have "fst (SolveAndReturnSolution ?P ?h boot)
          = Error (New ''failed to retrieve taskId from response'')"
    and "map (fst \<circ> fst) (trace (snd (snd (SolveAndReturnSolution ?P ?h boot))))
          = [''https://api.anti-captcha.com/createTask'']"
    by (simp_all add: n prod_eq_iff)
  ultimately show ?thesis
    by simp
qed

text \<open>
  C5 (amended). The deadline of an operation is honoured at its HTTP calls, not at the
  sleep between two polls: \<^verbatim>\<open>time.Sleep\<close> always runs its whole interval. When the
  deadline passes during a sleep, this shows at the next poll, which fails at once. So an
  operation ends less than one interval after its deadline, and each of its sleeps lasts
  the full interval.
\<close>

theorem C5_deadline_seen_after_the_sleep:
  "(SendImage P c imgString w = (r, w')
      \<longrightarrow> now w' < now w + defaultTimeout + checkInterval
         \<and> (\<exists>n. slept w' = slept w @ replicate n checkInterval))
   \<and> (SolveAndReturnSolution P h w = (r, h', w')
      \<longrightarrow> now w' < now w + defaultTimeout + checkInterval
         \<and> (\<exists>n. slept w' = slept w @ replicate n checkInterval))"
proof (intro conjI impI)
  assume run: "SendImage P c imgString w = (r, w')"
  from SendImage_polls [OF run] show "\<exists>n. slept w' = slept w @ replicate n checkInterval"
    by blast
  from run show "now w' < now w + defaultTimeout + checkInterval"
  proof (cases rule: SendImage_phases)
    case (failed new)
    then show ?thesis
      by (simp add: checkInterval_def second_def)
  next
    case (polled taskID w1 x)
    from SendImage_loop_world [OF polled(5)] obtain pr w2
      where p: "pollUntilReady P c (now w + defaultTimeout) taskID w1 = (pr, w2)"
        "now w' = now w2"
      by (elim exE conjE)
    from pollUntilReady_clock [OF p(1)] p(2) polled(4) show ?thesis
      by simp
  qed
next
  assume run: "SolveAndReturnSolution P h w = (r, h', w')"
  from SolveAndReturnSolution_polls [OF run]
  show "\<exists>n. slept w' = slept w @ replicate n checkInterval"
    by blast
  from run show "now w' < now w + defaultTimeout + checkInterval"
  proof (cases rule: SolveAndReturnSolution_phases)
    case (failed new)
    then show ?thesis
      by (simp add: checkInterval_def second_def)
  next
    case (polled taskID w1 x)
    from SolveAndReturnSolution_loop_world [OF polled(5)] obtain pr w2
      where p: "pollUntilReady P (Client h) (now w + defaultTimeout) taskID w1 = (pr, w2)"
        "now w' = now w2"
      by (elim exE conjE)
    from pollUntilReady_clock [OF p(1)] p(2) polled(4) show ?thesis
      by simp
  qed
qed

text \<open>A service that answers the first poll after 59 seconds.\<close>

definition slow_service :: "request list \<Rightarrow> nat \<times> reply" where
  "slow_service =
     scripted [(0, ok [(''errorId'', VFloat 0), (''taskId'', VFloat 7)]),
               (59 * second, ok [(''status'', VString ''processing'')])]"

theorem C5_witness:
  "now (snd (SendImage (mock slow_service) (NewClient ''key'') ''aGVsbG8='' boot)) = 61 * second
   \<and> 61 * second < now boot + defaultTimeout + checkInterval
   \<and> now (snd (snd (SolveAndReturnSolution (mock slow_service)
             (NewHCaptchaProxyless (NewClient ''key'')) boot))) = 61 * second"
  using C5_deadline_seen_after_the_sleep [of "mock slow_service" "NewClient ''key''" "''aGVsbG8=''"
      boot "fst (SendImage (mock slow_service) (NewClient ''key'') ''aGVsbG8='' boot)"
      "snd (SendImage (mock slow_service) (NewClient ''key'') ''aGVsbG8='' boot)"]
  by (simp add: run_defs slow_service_def SendImage_loop.simps SolveAndReturnSolution_loop.simps)

text \<open>
  The claim as stated, that the deadline interrupts a pending sleep, fails on this
  service: the sleep runs from second 59 to second 61, across the deadline at second 60,
  and \<^verbatim>\<open>SendImage\<close> returns at second 61.
\<close>

theorem C5_sleep_not_interrupted_counterexample:
  "(case SendImage (mock slow_service) (NewClient ''key'') ''aGVsbG8='' boot of
      (r, w') \<Rightarrow>
        r = Error (Wrapf ''failed to get task result''
              (Wrapf ''failed to get task result'' (Wrapf ''request failed'' DeadlineExceeded)))
        \<and> slept w' = [2 * second]
        \<and> now w' = 61 * second)
   \<and> now boot + defaultTimeout = 60 * second"
  by (simp add: run_defs slow_service_def SendImage_loop.simps)

text \<open>
  C6. When the remote service never reports readiness (it answers the create request
  with a task id and every poll with a 2xx JSON object whose status is not "ready", at
  any latency), \<^verbatim>\<open>SendImage\<close> and \<^verbatim>\<open>SolveAndReturnSolution\<close> end with an error that is
  \<^verbatim>\<open>context.DeadlineExceeded\<close> under its wrappers, at or after the deadline of 60
  seconds. That they end at all does not depend on the service: both loops are total,
  by the termination proofs above.
\<close>

theorem C6_never_ready_ends_at_the_deadline:
  assumes build: "\<forall>ep. \<exists>u. url_Parse P (apiBaseURL @ ep) = Inr u \<and> http_NewRequest P u = None"
    and created: "\<forall>reqs. length reqs = Suc (length (trace w)) \<longrightarrow>
        (\<exists>latency code m t. service P reqs = (latency, HttpReply code (Some (VMap m)))
           \<and> 200 \<le> code \<and> code < 300
           \<and> (map_of m ''errorId'' = None \<or> map_of m ''errorId'' = Some (VFloat 0))
           \<and> map_of m ''taskId'' = Some (VFloat t))"
    and never_ready: "\<forall>reqs. Suc (length (trace w)) < length reqs \<longrightarrow>
        (\<exists>latency code m. service P reqs = (latency, HttpReply code (Some (VMap m)))
           \<and> 200 \<le> code \<and> code < 300 \<and> map_of m ''status'' \<noteq> Some (VString ''ready''))"
  shows "(\<exists>e w'. SendImage P c imgString w = (Error e, w') \<and> is_deadline e
            \<and> now w + defaultTimeout \<le> now w')
       \<and> (encodable (VMap (EnterprisePayload h)) \<longrightarrow>
            (\<exists>e w'. SolveAndReturnSolution P h w = (Error e, h, w') \<and> is_deadline e
               \<and> now w + defaultTimeout \<le> now w'))"
proof (intro conjI impI)
  let ?ctx = "now w + defaultTimeout"
  define w0 where "w0 = Println ''Creating task for image captcha...'' w"
  obtain m w1 where m: "makeRequest P ?ctx ''/createTask'' (imageTaskBody c imgString) w0 = (m, w1)"
    by fastforce
  have cr: "\<forall>reqs. length reqs = Suc (length (trace w0)) \<longrightarrow>
        (\<exists>latency code m t. service P reqs = (latency, HttpReply code (Some (VMap m)))
           \<and> 200 \<le> code \<and> code < 300
           \<and> (map_of m ''errorId'' = None \<or> map_of m ''errorId'' = Some (VFloat 0))
           \<and> map_of m ''taskId'' = Some (VFloat t))"
    using created by (simp add: w0_def)
  have enc: "encodable (imageTaskBody c imgString)"
    by (simp add: imageTaskBody_def)
  from createTask_reply [OF build cr enc m]
  have len: "length (trace w1) = Suc (length (trace w))"
    and alt: "m = Inl (Wrapf ''request failed'' DeadlineExceeded) \<and> ?ctx \<le> now w1
            \<or> (\<exists>response t. m = Inr response
                  \<and> (map_of response ''errorId'' = None
                     \<or> map_of response ''errorId'' = Some (VFloat 0))
                  \<and> map_of response ''taskId'' = Some (VFloat t))"
    by (simp_all add: w0_def)
  from alt show "\<exists>e w'. SendImage P c imgString w = (Error e, w') \<and> is_deadline e \<and> ?ctx \<le> now w'"
  proof
    assume "m = Inl (Wrapf ''request failed'' DeadlineExceeded) \<and> ?ctx \<le> now w1"
    with m show ?thesis
      by (simp add: SendImage_def createTaskImage_def w0_def)
  next
    assume "\<exists>response t. m = Inr response
                  \<and> (map_of response ''errorId'' = None
                     \<or> map_of response ''errorId'' = Some (VFloat 0))
                  \<and> map_of response ''taskId'' = Some (VFloat t)"
    then obtain response t where r: "m = Inr response"
        "map_of response ''errorId'' = None \<or> map_of response ''errorId'' = Some (VFloat 0)"
        "map_of response ''taskId'' = Some (VFloat t)"
      by (elim exE conjE)
    define w2 where "w2 = Printf ''Task created successfully with ID: %f'' [AFloat t] w1"
    from m r have s: "SendImage P c imgString w = SendImage_loop P c ?ctx t w2"
      by (auto simp: SendImage_def createTaskImage_def w0_def w2_def assert_float64_def)
    have "Suc (length (trace w)) \<le> length (trace w2)"
      using len by (simp add: w2_def)
    from pollUntilReady_never_ready [OF build never_ready this, of c ?ctx t]
    obtain e w3 where p: "pollUntilReady P c ?ctx t w2 = (Inl e, w3)" "is_deadline e"
        "?ctx \<le> now w3"
      by (elim exE conjE)
    then show ?thesis
      by (simp add: s SendImage_loop_poll)
  qed
next
  let ?ctx = "now w + defaultTimeout"
  assume "encodable (VMap (EnterprisePayload h))"
  then have enc: "encodable (hcaptchaTaskBody h)"
    by (simp add: hcaptchaTaskBody_def)
  define w0 where "w0 = Println ''Creating HCaptcha proxyless task...'' w"
  obtain m w1 where m: "makeRequest P ?ctx ''/createTask'' (hcaptchaTaskBody h) w0 = (m, w1)"
    by fastforce
  have cr: "\<forall>reqs. length reqs = Suc (length (trace w0)) \<longrightarrow>
        (\<exists>latency code m t. service P reqs = (latency, HttpReply code (Some (VMap m)))
           \<and> 200 \<le> code \<and> code < 300
           \<and> (map_of m ''errorId'' = None \<or> map_of m ''errorId'' = Some (VFloat 0))
           \<and> map_of m ''taskId'' = Some (VFloat t))"
    using created by (simp add: w0_def)
  from createTask_reply [OF build cr enc m]
  have len: "length (trace w1) = Suc (length (trace w))"
    and alt: "m = Inl (Wrapf ''request failed'' DeadlineExceeded) \<and> ?ctx \<le> now w1
            \<or> (\<exists>response t. m = Inr response
                  \<and> (map_of response ''errorId'' = None
                     \<or> map_of response ''errorId'' = Some (VFloat 0))
                  \<and> map_of response ''taskId'' = Some (VFloat t))"
    by (simp_all add: w0_def)
  from alt show "\<exists>e w'. SolveAndReturnSolution P h w = (Error e, h, w') \<and> is_deadline e
      \<and> ?ctx \<le> now w'"
  proof
    assume "m = Inl (Wrapf ''request failed'' DeadlineExceeded) \<and> ?ctx \<le> now w1"
    with m show ?thesis
      by (simp add: SolveAndReturnSolution_def w0_def)
  next
    assume "\<exists>response t. m = Inr response
                  \<and> (map_of response ''errorId'' = None
                     \<or> map_of response ''errorId'' = Some (VFloat 0))
                  \<and> map_of response ''taskId'' = Some (VFloat t)"
    then obtain response t where r: "m = Inr response"
        "map_of response ''errorId'' = None \<or> map_of response ''errorId'' = Some (VFloat 0)"
        "map_of response ''taskId'' = Some (VFloat t)"
      by (elim exE conjE)
    define w2 where "w2 = Printf ''Task created successfully with ID: %f'' [AFloat t] w1"
    from m r have s: "SolveAndReturnSolution P h w = SolveAndReturnSolution_loop P h ?ctx t w2"
      by (auto simp: SolveAndReturnSolution_def w0_def w2_def assert_float64_def)
    have "Suc (length (trace w)) \<le> length (trace w2)"
      using len by (simp add: w2_def)
    from pollUntilReady_never_ready [OF build never_ready this, of "Client h" ?ctx t]
    obtain e w3 where p: "pollUntilReady P (Client h) ?ctx t w2 = (Inl e, w3)" "is_deadline e"
        "?ctx \<le> now w3"
      by (elim exE conjE)
    then show ?thesis
      by (simp add: s SolveAndReturnSolution_loop_poll)
  qed
qed

text \<open>A service that answers every poll, after ten seconds, with status "processing":
  the sixth poll starts at the deadline and is refused by the context.\<close>

definition busy_service :: "request list \<Rightarrow> nat \<times> reply" where
  "busy_service reqs =
     (if length reqs = 1 then (0, ok [(''errorId'', VFloat 0), (''taskId'', VFloat 7)])
      else (10 * second, ok [(''errorId'', VFloat 0), (''status'', VString ''processing'')]))"

theorem C6_witness:
  "(\<exists>e w'. SendImage (mock busy_service) (NewClient ''key'') ''aGVsbG8='' boot = (Error e, w')
      \<and> is_deadline e \<and> 60 * second \<le> now w')
   \<and> (\<exists>e w'. SolveAndReturnSolution (mock busy_service) (NewHCaptchaProxyless (NewClient ''key'')) boot
        = (Error e, NewHCaptchaProxyless (NewClient ''key''), w')
      \<and> is_deadline e \<and> 60 * second \<le> now w')
   \<and> (case SendImage (mock busy_service) (NewClient ''key'') ''aGVsbG8='' boot of
        (r, w') \<Rightarrow>
          r = Error (Wrapf ''failed to get task result''
                (Wrapf ''failed to get task result'' (Wrapf ''request failed'' DeadlineExceeded)))
          \<and> now w' = 60 * second \<and> length (slept w') = 5 \<and> length (trace w') = 7)"
proof -
  have build: "\<forall>ep. \<exists>u. url_Parse (mock busy_service) (apiBaseURL @ ep) = Inr u
      \<and> http_NewRequest (mock busy_service) u = None"
    by (simp add: mock_def)
  have created: "\<forall>reqs. length reqs = Suc (length (trace boot)) \<longrightarrow>
        (\<exists>latency code m t. service (mock busy_service) reqs = (latency, HttpReply code (Some (VMap m)))
           \<and> 200 \<le> code \<and> code < 300
           \<and> (map_of m ''errorId'' = None \<or> map_of m ''errorId'' = Some (VFloat 0))
           \<and> map_of m ''taskId'' = Some (VFloat t))"
    by (simp add: mock_def busy_service_def boot_def ok_def)
  have never_ready: "\<forall>reqs. Suc (length (trace boot)) < length reqs \<longrightarrow>
        (\<exists>latency code m. service (mock busy_service) reqs = (latency, HttpReply code (Some (VMap m)))
           \<and> 200 \<le> code \<and> code < 300 \<and> map_of m ''status'' \<noteq> Some (VString ''ready''))"
    by (simp add: mock_def busy_service_def boot_def ok_def)
  have enc: "encodable (VMap (EnterprisePayload (NewHCaptchaProxyless (NewClient ''key''))))"
    by (simp add: NewHCaptchaProxyless_def)
  from C6_never_ready_ends_at_the_deadline [OF build created never_ready,
      of "NewClient ''key''" "''aGVsbG8=''" "NewHCaptchaProxyless (NewClient ''key'')"] enc
  have "(\<exists>e w'. SendImage (mock busy_service) (NewClient ''key'') ''aGVsbG8='' boot = (Error e, w')
      \<and> is_deadline e \<and> 60 * second \<le> now w')
   \<and> (\<exists>e w'. SolveAndReturnSolution (mock busy_service) (NewHCaptchaProxyless (NewClient ''key'')) boot
        = (Error e, NewHCaptchaProxyless (NewClient ''key''), w')
      \<and> is_deadline e \<and> 60 * second \<le> now w')"
    by (simp add: boot_def defaultTimeout_def)
  moreover have "case SendImage (mock busy_service) (NewClient ''key'') ''aGVsbG8='' boot of
        (r, w') \<Rightarrow>
          r = Error (Wrapf ''failed to get task result''
                (Wrapf ''failed to get task result'' (Wrapf ''request failed'' DeadlineExceeded)))
          \<and> now w' = 60 * second \<and> length (slept w') = 5 \<and> length (trace w') = 7"
    by (simp add: run_defs busy_service_def SendImage_loop.simps)
  ultimately show ?thesis
    by (intro conjI) (elim conjE, assumption)+
qed

text \<open>
  C7. The claim: once a poll response is ready no further poll is made, and the loop
  exits at once with the solution or a decoding error. No poll follows a ready response
  in any execution (\<open>SendImage_polls\<close>, \<open>SolveAndReturnSolution_polls\<close>), and
  \<^verbatim>\<open>SendImage\<close> exits with the text or one of its two decoding errors
  (\<open>SendImage_loop_world\<close>). But \<^verbatim>\<open>SolveAndReturnSolution\<close> does not always exit with the
  solution or an error: on a ready response whose solution holds
  \<^verbatim>\<open>gRecaptchaResponse\<close> and no \<^verbatim>\<open>userAgent\<close> it exits, after the create request and one
  poll, by a panic.
\<close>

theorem C7_ready_exit_by_panic:
  "case SolveAndReturnSolution
          (mock (scripted
             [(0, ok [(''errorId'', VFloat 0), (''taskId'', VFloat 7)]),
              (0, ok [(''status'', VString ''ready''),
                      (''solution'', VMap [(''gRecaptchaResponse'', VString ''tok'')])])]))
          (NewHCaptchaProxyless (NewClient ''key'')) boot
   of (r, h', w') \<Rightarrow>
     r = Panic ''interface conversion: interface {} is not string''
     \<and> map (fst \<circ> fst) (trace w')
       = [''https://api.anti-captcha.com/createTask'',
          ''https://api.anti-captcha.com/getTaskResult'']
     \<and> slept w' = []"
  by (simp add: run_defs SolveAndReturnSolution_loop.simps)

text \<open>
  C8. \<^verbatim>\<open>SolveAndReturnSolution\<close> changes none of the fields the caller sets (\<^verbatim>\<open>Client\<close>,
  \<^verbatim>\<open>WebsiteURL\<close>, \<^verbatim>\<open>WebsiteKey\<close>, \<^verbatim>\<open>IsInvisible\<close>, \<^verbatim>\<open>IsEnterprise\<close>,
  \<^verbatim>\<open>EnterprisePayload\<close>, \<^verbatim>\<open>SoftID\<close>); when it returns an error, \<^verbatim>\<open>UserAgent\<close> and
  \<^verbatim>\<open>RespKey\<close> are unchanged as well; when it returns a token, the last response it
  received is a ready result whose solution holds that token as \<^verbatim>\<open>gRecaptchaResponse\<close>,
  the new \<^verbatim>\<open>UserAgent\<close> as \<^verbatim>\<open>userAgent\<close> and the new \<^verbatim>\<open>RespKey\<close> as \<^verbatim>\<open>respKey\<close>; and
  when the last poll brought a ready result whose solution holds three such strings, it
  returns the first and the configuration exposes the other two.
\<close>

theorem C8_solution_enriches_config:
  assumes "SolveAndReturnSolution P h w = (r, h', w')"
  shows "Client h' = Client h \<and> WebsiteURL h' = WebsiteURL h \<and> WebsiteKey h' = WebsiteKey h
         \<and> IsInvisible h' = IsInvisible h \<and> IsEnterprise h' = IsEnterprise h
         \<and> EnterprisePayload h' = EnterprisePayload h \<and> SoftID h' = SoftID h
       \<and> (\<forall>e. r = Error e \<longrightarrow> UserAgent h' = UserAgent h \<and> RespKey h' = RespKey h)
       \<and> (\<forall>g. r = Return g \<longrightarrow>
             (\<exists>req code body m sol. trace w' \<noteq> [] \<and> last (trace w') = (req, Inr (code, body))
                \<and> json_Decode body = Inr m \<and> map_of m ''status'' = Some (VString ''ready'')
                \<and> map_of m ''solution'' = Some (VMap sol)
                \<and> map_of sol ''gRecaptchaResponse'' = Some (VString g)
                \<and> map_of sol ''userAgent'' = Some (VString (UserAgent h'))
                \<and> map_of sol ''respKey'' = Some (VString (RespKey h'))))
       \<and> (\<forall>req code body m sol g ua k.
             length (trace w) + 2 \<le> length (trace w')
             \<and> last (trace w') = (req, Inr (code, body)) \<and> 200 \<le> code \<and> code < 300
             \<and> json_Decode body = Inr m \<and> map_of m ''status'' = Some (VString ''ready'')
             \<and> map_of m ''solution'' = Some (VMap sol)
             \<and> map_of sol ''gRecaptchaResponse'' = Some (VString g)
             \<and> map_of sol ''userAgent'' = Some (VString ua)
             \<and> map_of sol ''respKey'' = Some (VString k)
             \<longrightarrow> r = Return g \<and> UserAgent h' = ua \<and> RespKey h' = k)"
proof -
  note old = SolveAndReturnSolution_frame [OF assms]
  have new: "r = Return g \<and> UserAgent h' = ua \<and> RespKey h' = k"
    if len: "length (trace w) + 2 \<le> length (trace w')"
      and last: "last (trace w') = (req, Inr (code, body))" "200 \<le> code" "code < 300"
        "json_Decode body = Inr m" "map_of m ''status'' = Some (VString ''ready'')"
      and sol: "map_of m ''solution'' = Some (VMap sol)"
        "map_of sol ''gRecaptchaResponse'' = Some (VString g)"
        "map_of sol ''userAgent'' = Some (VString ua)"
        "map_of sol ''respKey'' = Some (VString k)"
    for req code body m sol g ua k
    using assms
  proof (cases rule: SolveAndReturnSolution_phases)
    case (failed new)
    with len show ?thesis
      by simp
  next
    case (polled taskID w1 x)
    let ?ctx = "now w + defaultTimeout"
    from SolveAndReturnSolution_loop_world [OF polled(5)] obtain pr w2
      where p: "pollUntilReady P (Client h) ?ctx taskID w1 = (pr, w2)"
        and t: "trace w' = trace w2"
      by (elim exE conjE)
    have rcv: "received (Inr (code, body)) = Inr m"
      using last by (simp add: received_def)
    have rdy: "ready_response (snd (last (trace w2)))"
      using last rcv t by (simp add: ready_response_def assert_string_def)
    have grow: "trace w2 \<noteq> trace w1"
      using len t polled(1) by auto
    have "pr = Inr m"
    proof (cases pr)
      case (Inl e)
      with pollUntilReady_Inl_last [OF p [unfolded Inl] grow] rdy show ?thesis
        by simp
    next
      case (Inr m0)
      from pollUntilReady_trace [OF p] obtain new
        where n: "trace w2 = trace w1 @ new"
          "\<forall>m. pr = Inr m \<longrightarrow> new \<noteq> [] \<and> received (snd (last new)) = Inr m
             \<and> assert_string (map_of m ''status'') = Some ''ready''"
        by (elim exE conjE)
      with Inr have "new \<noteq> []" "received (snd (last new)) = Inr m0"
        by simp_all
      with n(1) t last(1) rcv have "m0 = m"
        by simp
      with Inr show ?thesis
        by simp
    qed
    with p have "pollUntilReady P (Client h) ?ctx taskID w1 = (Inr m, w2)"
      by simp
    from SolveAndReturnSolution_loop_success [OF this sol] polled(5) show ?thesis
      by simp
  qed
  from old new show ?thesis
    by (intro conjI allI impI; (elim conjE)?) simp_all
qed

text \<open>The scenario of the claim: a configured challenge and a service whose first poll
  brings the token "tok", the user agent "UA" and the response key "K".\<close>

definition site_config :: HCaptchaProxyless where
  "site_config =
     SetSoftID 0 (SetEnterprisePayload [(''rqdata'', VString ''rq''), (''sentry'', VBool True)]
       (SetIsEnterprise True (SetIsInvisible True (SetWebsiteKey ''SITE_KEY''
         (SetWebsiteURL ''https://website.com'' (NewHCaptchaProxyless (NewClient ''key'')))))))"

definition token_service :: "request list \<Rightarrow> nat \<times> reply" where
  "token_service =
     scripted [(0, ok [(''errorId'', VFloat 0), (''taskId'', VFloat 7)]),
               (0, ok [(''errorId'', VFloat 0), (''status'', VString ''ready''),
                       (''solution'', VMap [(''gRecaptchaResponse'', VString ''tok''),
                                            (''userAgent'', VString ''UA''),
                                            (''respKey'', VString ''K'')])])]"

theorem C8_witness:
  "case SolveAndReturnSolution (mock token_service) site_config boot of
     (r, h', w') \<Rightarrow>
       r = Return ''tok'' \<and> UserAgent h' = ''UA'' \<and> RespKey h' = ''K''
       \<and> h' = site_config\<lparr>UserAgent := ''UA'', RespKey := ''K''\<rparr>"
  using C8_solution_enriches_config [of "mock token_service" site_config boot
      "fst (SolveAndReturnSolution (mock token_service) site_config boot)"
      "fst (snd (SolveAndReturnSolution (mock token_service) site_config boot))"
      "snd (snd (SolveAndReturnSolution (mock token_service) site_config boot))"]
  by (simp add: run_defs token_service_def site_config_def SolveAndReturnSolution_loop.simps
      SetSoftID_def SetEnterprisePayload_def SetIsEnterprise_def SetIsInvisible_def
      SetWebsiteKey_def SetWebsiteURL_def)

text \<open>
  C9 (amended). A call of \<^verbatim>\<open>makeRequest\<close> makes at most one HTTP round trip (one call
  of \<^verbatim>\<open>HTTPClient.Do\<close>, an entry of the trace) and never retries: exactly one when the URL
  parses, the body can be serialized and the request can be created (\<open>sendable\<close>), none
  otherwise. It returns an error exactly when one of
  these three steps fails, the network call fails (which includes the expiry of the
  context), the status code is outside 200..299, or the response body does not decode
  into a JSON object.
\<close>

theorem C9_makeRequest_round_trips:
  assumes "makeRequest P ctx endpoint body w = (r, w')"
  shows "\<exists>new. trace w' = trace w @ new
           \<and> length new = (if sendable P endpoint body then 1 else 0)
           \<and> (isl r \<longleftrightarrow>
                \<not> sendable P endpoint body
                \<or> (\<exists>req e. new = [(req, Inl e)])
                \<or> (\<exists>req code rbody. new = [(req, Inr (code, rbody))]
                      \<and> (code < 200 \<or> 300 \<le> code \<or> isl (json_Decode rbody))))"
proof (cases "sendable P endpoint body")
  case True
  from makeRequest_sendable [OF True assms] obtain req res
    where x: "trace w' = trace w @ [(req, res)]" "r = received res"
    by blast
  have "isl (received res) \<longleftrightarrow>
          (\<exists>e. res = Inl e)
          \<or> (\<exists>code rbody. res = Inr (code, rbody)
                \<and> (code < 200 \<or> 300 \<le> code \<or> isl (json_Decode rbody)))"
    by (cases res) (auto simp: received_def split: sum.splits if_splits)
  with x True show ?thesis
    by (intro exI [of _ "[(req, res)]"]) simp
next
  case False
  from makeRequest_unsendable [OF False assms] False show ?thesis
    by (intro exI [of _ "[]"]) simp
qed

theorem C9_witness:
  "(let P = mock (scripted [(5, HttpReply 503 None)]);
        (r, w') = makeRequest P 1000 ''/createTask'' (imageTaskBody (NewClient ''key'') ''aGVsbG8='') boot
    in sendable P ''/createTask'' (imageTaskBody (NewClient ''key'') ''aGVsbG8='')
       \<and> length (trace w') = 1 \<and> r = Inl (StatusCode 503))"
  using C9_makeRequest_round_trips [of "mock (scripted [(5, HttpReply 503 None)])" 1000
      "''/createTask''" "imageTaskBody (NewClient ''key'') ''aGVsbG8=''" boot]
  by (simp add: run_defs sendable_def)

text \<open>
  The claim as stated, one round trip in every call, fails when the body cannot be
  serialized: \<^verbatim>\<open>SolveAndReturnSolution\<close> with an \<^verbatim>\<open>EnterprisePayload\<close> that holds a value
  \<^verbatim>\<open>json.Marshal\<close> refuses returns before anything is sent.
\<close>

theorem C9_no_round_trip_counterexample:
  "length (trace (snd (makeRequest (mock (scripted [(0, ok [(''taskId'', VFloat 7)])])) 1000
       ''/createTask''
       (hcaptchaTaskBody (SetEnterprisePayload [(''callback'', VChan)]
          (NewHCaptchaProxyless (NewClient ''key''))))
       boot))) = 0
   \<and> SolveAndReturnSolution (mock (scripted [(0, ok [(''taskId'', VFloat 7)])]))
        (SetEnterprisePayload [(''callback'', VChan)] (NewHCaptchaProxyless (NewClient ''key'')))
        boot
      = (Error (Wrapf ''failed to create task''
                 (Wrapf ''failed to marshal request body'' (Lib ''json: unsupported type''))),
         SetEnterprisePayload [(''callback'', VChan)] (NewHCaptchaProxyless (NewClient ''key'')),
         boot\<lparr>logged :=
           [Logf ''Creating HCaptcha proxyless task...'' [],
            Logf ''Error marshaling request body: %v'' [AErr (Lib ''json: unsupported type'')],
            Logf ''Failed to create task: %v''
              [AErr (Wrapf ''failed to marshal request body'' (Lib ''json: unsupported type''))]]\<rparr>)"
  by (simp add: run_defs SetEnterprisePayload_def Printf_def Println_def)

text \<open>The log entries that \<^verbatim>\<open>makeRequest\<close> writes when it sends a request.\<close>

definition sending_lines :: "log_entry list \<Rightarrow> log_entry list" where
  "sending_lines =
     filter (\<lambda>entry. case entry of Logf fmt args \<Rightarrow> fmt = ''Sending request to %s with body: %v'')"

lemma http_Do_logged:
  assumes "http_Do P ctx req w = (res, w')"
  shows "logged w' = logged w"
  using http_Do_world [OF assms] by simp

lemma makeRequest_sending_lines:
  assumes "url_Parse P (apiBaseURL @ endpoint) = Inr u" and "http_NewRequest P u = None"
    and "encodable body"
  shows "sending_lines (logged (snd (makeRequest P ctx endpoint body w)))
         = sending_lines (logged w)
           @ [Logf ''Sending request to %s with body: %v'' [AStr u, ANat (length (encode P body))]]"
proof -
  define w1 where
    "w1 = Printf ''Sending request to %s with body: %v'' [AStr u, ANat (length (encode P body))] w"
  obtain res w2 where d: "http_Do P ctx (u, encode P body) w1 = (res, w2)"
    by fastforce
  have l: "logged w2 = logged w @ [Logf ''Sending request to %s with body: %v'' [AStr u, ANat (length (encode P body))]]"
    using http_Do_logged [OF d] by (simp add: w1_def)
  from assms d l show ?thesis
    by (auto simp: makeRequest_def json_Marshal_def Let_def w1_def sending_lines_def
        split: sum.splits if_splits prod.splits)
qed

text \<open>
  C10. The log line \<^verbatim>\<open>makeRequest\<close> writes when it sends a request holds the URL and
  the byte length of the serialized payload, never the payload: two request bodies whose
  serializations have the same length (for instance bodies that differ in the API key
  only) leave the same line.
\<close>

theorem C10_sending_line_shows_length_only:
  assumes "url_Parse P (apiBaseURL @ endpoint) = Inr u" and "http_NewRequest P u = None"
    and "encodable body1" and "encodable body2"
    and "length (encode P body1) = length (encode P body2)"
  shows "sending_lines (logged (snd (makeRequest P ctx endpoint body1 w)))
         = sending_lines (logged w)
           @ [Logf ''Sending request to %s with body: %v'' [AStr u, ANat (length (encode P body1))]]
       \<and> sending_lines (logged (snd (makeRequest P ctx endpoint body1 w)))
         = sending_lines (logged (snd (makeRequest P ctx endpoint body2 w)))"
  using assms by (simp add: makeRequest_sending_lines)

theorem C10_witness:
  "imageTaskBody (NewClient ''key-AAAA'') ''aGVsbG8='' \<noteq> imageTaskBody (NewClient ''key-BBBB'') ''aGVsbG8=''
   \<and> length (mock_encode (imageTaskBody (NewClient ''key-AAAA'') ''aGVsbG8=''))
     = length (mock_encode (imageTaskBody (NewClient ''key-BBBB'') ''aGVsbG8=''))
   \<and> sending_lines (logged (snd (makeRequest (mock (scripted [])) 1000 ''/createTask''
        (imageTaskBody (NewClient ''key-AAAA'') ''aGVsbG8='') boot)))
     = [Logf ''Sending request to %s with body: %v''
          [AStr ''https://api.anti-captcha.com/createTask'', ANat 76]]
   \<and> sending_lines (logged (snd (makeRequest (mock (scripted [])) 1000 ''/createTask''
        (imageTaskBody (NewClient ''key-BBBB'') ''aGVsbG8='') boot)))
     = [Logf ''Sending request to %s with body: %v''
          [AStr ''https://api.anti-captcha.com/createTask'', ANat 76]]"
proof -
  let ?P = "mock (scripted [])"
  let ?b1 = "imageTaskBody (NewClient ''key-AAAA'') ''aGVsbG8=''"
  let ?b2 = "imageTaskBody (NewClient ''key-BBBB'') ''aGVsbG8=''"
  have p: "url_Parse ?P (apiBaseURL @ ''/createTask'') = Inr ''https://api.anti-captcha.com/createTask''"
    by (simp add: mock_def apiBaseURL_def)
  have n: "http_NewRequest ?P ''https://api.anti-captcha.com/createTask'' = None"
    by (simp add: mock_def)
  have e: "encodable ?b1" "encodable ?b2"
    by (simp_all add: imageTaskBody_def)
  have m: "encode ?P = mock_encode"
    by (simp add: mock_def)
  have l1: "length (mock_encode ?b1) = 76" and l2: "length (mock_encode ?b2) = 76"
    by (simp_all add: imageTaskBody_def NewClient_def quote_def)
  have l: "length (encode ?P ?b1) = length (encode ?P ?b2)"
    using l1 l2 by (simp add: m)
  have d: "?b1 \<noteq> ?b2"
    by (simp add: imageTaskBody_def NewClient_def)
  have s: "sending_lines (logged boot) = []"
    by (simp add: boot_def sending_lines_def)
  note c = C10_sending_line_shows_length_only [OF p n e l, of 1000 boot]
  from c [THEN conjunct1] have a:
    "sending_lines (logged (snd (makeRequest ?P 1000 ''/createTask'' ?b1 boot)))
     = [Logf ''Sending request to %s with body: %v''
          [AStr ''https://api.anti-captcha.com/createTask'', ANat 76]]"
    by (simp add: m l1 s)
  have b:
    "sending_lines (logged (snd (makeRequest ?P 1000 ''/createTask'' ?b2 boot)))
     = [Logf ''Sending request to %s with body: %v''
          [AStr ''https://api.anti-captcha.com/createTask'', ANat 76]]"
    by (rule trans [OF c [THEN conjunct2, symmetric] a])
  from d l1 l2 a b show ?thesis
    by (intro conjI) simp_all
qed

end
